theory Spec2Isabelle
  imports Complex_Main
begin

section \<open>Data model\<close>

text \<open>
  The service keeps every durable fact in one Redis instance and answers each HTTP
  request in a single pass.  The development below embeds the session module
  (\<^verbatim>\<open>middleware/sessionToken.js\<close>), the origin guard
  (\<^verbatim>\<open>middleware/originValidation.js\<close>) and the two routes of
  \<^verbatim>\<open>routes/faucet.js\<close> as functions that take the state of the world
  and return the new one together with the HTTP answer.

  A stored session is the object that \<^verbatim>\<open>createSession\<close> serialises:
  \<^verbatim>\<open>{ ip, address, origin, startedAt, csrfToken }\<close>.  A missing origin is
  stored as \<^verbatim>\<open>null\<close>.
\<close>

record session =
  ip :: string
  address :: string
  origin :: "string option"
  startedAt :: int
  csrfToken :: string

text \<open>
  Redis values are strings.  Two kinds are ever written by the service: the text
  \<^verbatim>\<open>JSON.stringify(session)\<close> under a session key and a bare token under an
  address-index key.  \<open>Json_text x\<close> stands for the first, \<open>Plain t\<close> for the string
  \<open>t\<close> itself.  \<^verbatim>\<open>JSON.parse\<close> gives the object back on the first kind and
  throws on the second (a bare token is 64 hexadecimal digits; one that happens to
  read as a JSON number literal is outside the model).
\<close>

datatype redis_val = Json_text session | Plain string

fun JSON_parse :: "redis_val \<Rightarrow> session option" where
  "JSON_parse (Json_text x) = Some x"
| "JSON_parse (Plain t) = None"

text \<open>
  The text of a stored value is needed where the code splices what it read into a
  key (\<^verbatim>\<open>`session:${oldToken}`\<close>).  For a serialised session this is the JSON
  text: decimal numbers, quoted strings with the quote and the backslash escaped
  (the escapes of control characters are not rendered).  The service itself never
  stores a serialised session under an index key, so this text is only read in
  stores that it did not produce.
\<close>

fun digits :: "nat \<Rightarrow> string" where
  "digits n = (if n < 10 then [char_of (48 + n)] else digits (n div 10) @ [char_of (48 + n mod 10)])"

declare digits.simps [simp del]

definition show_int :: "int \<Rightarrow> string" where
  "show_int i = (if i < 0 then CHR ''-'' # digits (nat (- i)) else digits (nat i))"

definition json_quote :: "string \<Rightarrow> string" where
  "json_quote t =
     [CHR 0x22] @ concat (map (\<lambda>c. if c = CHR 0x22 \<or> c = CHR 0x5C then [CHR 0x5C, c] else [c]) t)
       @ [CHR 0x22]"

definition JSON_stringify :: "session \<Rightarrow> string" where
  "JSON_stringify x =
     ''{'' @ json_quote ''ip'' @ '':'' @ json_quote (ip x) @ '',''
       @ json_quote ''address'' @ '':'' @ json_quote (address x) @ '',''
       @ json_quote ''origin'' @ '':''
       @ (case origin x of None \<Rightarrow> ''null'' | Some t \<Rightarrow> json_quote t) @ '',''
       @ json_quote ''startedAt'' @ '':'' @ show_int (startedAt x) @ '',''
       @ json_quote ''csrfToken'' @ '':'' @ json_quote (csrfToken x) @ ''}''"

fun text_of :: "redis_val \<Rightarrow> string" where
  "text_of (Plain t) = t"
| "text_of (Json_text x) = JSON_stringify x"

text \<open>JavaScript truthiness of a string that may be absent: present and not empty.\<close>

fun truthy :: "string option \<Rightarrow> bool" where
  "truthy None = False"
| "truthy (Some t) = (t \<noteq> [])"

subsection \<open>Side effects\<close>

text \<open>
  Every mutation and every call that leaves the process is appended to a trace, in
  the order the code issues it: writes and deletes of Redis keys, lines of the
  abuse log (\<^verbatim>\<open>logSecurityEvent(kind, fields)\<close>, a field whose value is
  \<^verbatim>\<open>undefined\<close> being \<open>None\<close>), the wallet's
  \<^verbatim>\<open>sendTransaction\<close>, and the hit that the rate limiter counts before the
  verifier runs.  The cooldown records are kept as state only: the sources do not
  show at which point of a request they are written, and the trace takes no stand
  on it.
\<close>

datatype cooldown_key = By_ip string | By_address string

datatype effect =
    Store_set string int redis_val
  | Store_del string
  | Log_write string "(string \<times> string option) list"
  | Wallet_send string int
  | Rate_hit string

text \<open>A thrown JavaScript \<^verbatim>\<open>Error\<close> is represented by its message.\<close>

type_synonym error = string

text \<open>
  The world a request runs in.  \<open>redis\<close> maps a key to the instant (milliseconds)
  at which Redis drops it and to its value.  \<open>redis_fault\<close> is \<open>None\<close> while the
  connection answers and otherwise holds the message with which every command
  rejects; the connection is up or down for the whole of a request (one that is
  lost between two commands of the same request is not represented, so the
  \<^verbatim>\<open>catch\<close> of \<open>deleteSession\<close> is entered only with the connection down).
  \<open>cooldown\<close> (claim instant and expiry) and \<open>rate\<close> (end of the window and hits
  in it) are the records of the anti-abuse module, which live in the same Redis
  under keys of their own.
\<close>

record state =
  redis_fault :: "error option"
  redis :: "string \<rightharpoonup> (int \<times> redis_val)"
  cooldown :: "cooldown_key \<rightharpoonup> (int \<times> int)"
  rate :: "string \<rightharpoonup> (int \<times> nat)"
  effects :: "effect list"

subsection \<open>Redis commands\<close>

text \<open>
  \<^verbatim>\<open>GET\<close> answers only for a key that has not expired.  \<^verbatim>\<open>DEL\<close> removes a
  key.  \<^verbatim>\<open>SETEX key seconds value\<close> refuses a non-positive lifetime.  A command
  sent while the connection is down rejects, and the caller's \<^verbatim>\<open>await\<close> throws.
  One request sees one instant \<open>now\<close>, shared by \<^verbatim>\<open>Date.now()\<close> and by Redis.
\<close>

definition invalid_expire :: error where
  "invalid_expire = ''ERR invalid expire time in '' @ [CHR 0x27] @ ''setex'' @ [CHR 0x27] @ '' command''"

definition redis_get :: "int \<Rightarrow> string \<Rightarrow> state \<Rightarrow> error + redis_val option" where
  "redis_get now k s =
     (case redis_fault s of
        Some m \<Rightarrow> Inl m
      | None \<Rightarrow>
          (case redis s k of
             None \<Rightarrow> Inr None
           | Some (expires, v) \<Rightarrow> if now < expires then Inr (Some v) else Inr None))"

definition redis_del :: "string \<Rightarrow> state \<Rightarrow> error + state" where
  "redis_del k s =
     (case redis_fault s of
        Some m \<Rightarrow> Inl m
      | None \<Rightarrow> Inr (s\<lparr>redis := (redis s)(k := None), effects := effects s @ [Store_del k]\<rparr>))"

definition redis_setEx :: "int \<Rightarrow> string \<Rightarrow> int \<Rightarrow> redis_val \<Rightarrow> state \<Rightarrow> error + state" where
  "redis_setEx now k seconds v s =
     (case redis_fault s of
        Some m \<Rightarrow> Inl m
      | None \<Rightarrow>
          if seconds \<le> 0 then Inl invalid_expire
          else Inr (s\<lparr>redis := (redis s)(k \<mapsto> (now + 1000 * seconds, v)),
                      effects := effects s @ [Store_set k seconds v]\<rparr>))"

text \<open>A raw value is falsy when it is absent or the empty string.\<close>

fun raw_truthy :: "redis_val option \<Rightarrow> bool" where
  "raw_truthy None = False"
| "raw_truthy (Some (Plain t)) = (t \<noteq> [])"
| "raw_truthy (Some (Json_text x)) = True"

definition session_key :: "string \<Rightarrow> string" where
  "session_key token = ''session:'' @ token"

definition address_key :: "string \<Rightarrow> string" where
  "address_key a = ''session:addr:'' @ a"

section \<open>Session manager\<close>

record config =
  production :: bool
  FRONTEND_DOMAIN :: "string option"
  MIN_SESSION_TIME_MS :: int
  SESSION_TTL_MS :: int
  MIN_SCORE :: int
  FAUCET_AMOUNT :: int
  FAUCET_MIN_BALANCE :: int
  FAUCET_ADDRESS :: string
  RATE_LIMIT_MAX :: nat
  RATE_LIMIT_WINDOW_MS :: int
  COOLDOWN_SECONDS :: int

text \<open>
  \<^verbatim>\<open>await Promise.all([c1, c2])\<close> on two Redis commands: both are sent, in this
  order, whatever becomes of the first; the \<^verbatim>\<open>await\<close> throws the first rejection.
\<close>

definition promise_all2 ::
  "(state \<Rightarrow> error + state) \<Rightarrow> (state \<Rightarrow> error + state) \<Rightarrow> state \<Rightarrow> state \<times> error option" where
  "promise_all2 c1 c2 s =
     (case c1 s of
        Inl e1 \<Rightarrow> (case c2 s of Inl e2 \<Rightarrow> (s, Some e1) | Inr s2 \<Rightarrow> (s2, Some e1))
      | Inr s1 \<Rightarrow> (case c2 s1 of Inl e2 \<Rightarrow> (s1, Some e2) | Inr s2 \<Rightarrow> (s2, None)))"

text \<open>
  \<^verbatim>\<open>deleteSessionsForAddress(address)\<close>: read the index; when it names a token,
  delete that token's session and the index entry, both inside one
  \<^verbatim>\<open>Promise.all\<close>.
\<close>

definition deleteSessionsForAddress :: "int \<Rightarrow> string \<Rightarrow> state \<Rightarrow> state \<times> error option" where
  "deleteSessionsForAddress now a s =
     (case redis_get now (address_key a) s of
        Inl e \<Rightarrow> (s, Some e)
      | Inr None \<Rightarrow> (s, None)
      | Inr (Some oldToken) \<Rightarrow>
          if raw_truthy (Some oldToken) then
            promise_all2 (redis_del (session_key (text_of oldToken))) (redis_del (address_key a)) s
          else (s, None))"

text \<open>
  \<^verbatim>\<open>createSession(ip, address, origin)\<close>.  The two random strings that
  \<^verbatim>\<open>crypto.randomBytes(32).toString("hex")\<close> yields are arguments; \<open>now\<close> is
  \<^verbatim>\<open>Date.now()\<close>.  The lifetime is \<^verbatim>\<open>Math.floor(SESSION_TTL_MS / 1000)\<close>
  seconds for both keys.
\<close>

definition createSession ::
  "config \<Rightarrow> int \<Rightarrow> string \<times> string \<Rightarrow> string \<Rightarrow> string \<Rightarrow> string option \<Rightarrow> state
     \<Rightarrow> state \<times> (error + string \<times> string)" where
  "createSession cfg now rnd ip0 a origin0 s =
     (case deleteSessionsForAddress now a s of
        (s1, Some e) \<Rightarrow> (s1, Inl e)
      | (s1, None) \<Rightarrow>
          let token = fst rnd;
              csrf = snd rnd;
              data = Json_text \<lparr>ip = ip0, address = a, origin = origin0, startedAt = now,
                                csrfToken = csrf\<rparr>;
              ttlSeconds = SESSION_TTL_MS cfg div 1000
          in (case promise_all2 (redis_setEx now (session_key token) ttlSeconds data)
                     (redis_setEx now (address_key a) ttlSeconds (Plain token)) s1 of
                (s2, Some e) \<Rightarrow> (s2, Inl e)
              | (s2, None) \<Rightarrow> (s2, Inr (token, csrf))))"

text \<open>
  \<^verbatim>\<open>deleteSession(token)\<close>: read the session; when there is none, do nothing.
  Otherwise, inside a \<^verbatim>\<open>try\<close>: parse it and delete the session key and the index
  key of its address in one \<^verbatim>\<open>Promise.all\<close>.  The \<^verbatim>\<open>catch\<close>, entered when the
  text does not parse and also when the \<^verbatim>\<open>Promise.all\<close> rejects, deletes the
  session key alone; a failure of that last command is thrown to the caller.
\<close>

definition deleteSession :: "int \<Rightarrow> string \<Rightarrow> state \<Rightarrow> state \<times> error option" where
  "deleteSession now token s =
     (case redis_get now (session_key token) s of
        Inl e \<Rightarrow> (s, Some e)
      | Inr None \<Rightarrow> (s, None)
      | Inr (Some raw) \<Rightarrow>
          if raw_truthy (Some raw) then
            (case JSON_parse raw of
               Some x \<Rightarrow>
                 (case promise_all2 (redis_del (session_key token))
                         (redis_del (address_key (address x))) s of
                    (s1, None) \<Rightarrow> (s1, None)
                  | (s1, Some e) \<Rightarrow>
                      (case redis_del (session_key token) s1 of
                         Inl e' \<Rightarrow> (s1, Some e')
                       | Inr s2 \<Rightarrow> (s2, None)))
             | None \<Rightarrow>
                 (case redis_del (session_key token) s of
                    Inl e \<Rightarrow> (s, Some e)
                  | Inr s1 \<Rightarrow> (s1, None)))
          else (s, None))"

section \<open>Requests and answers\<close>

text \<open>
  What the handlers read from a request: the \<^verbatim>\<open>faucet-token\<close> cookie, the
  \<^verbatim>\<open>X-FAUCET-CSRF\<close> and \<^verbatim>\<open>Origin\<close> headers, the client address that
  \<^verbatim>\<open>getClientIP(req)\<close> resolves, \<^verbatim>\<open>req.originalUrl\<close>, the
  \<^verbatim>\<open>address\<close> query parameter, and \<^verbatim>\<open>address\<close> and \<^verbatim>\<open>score\<close> of
  the JSON body.  A header, a cookie or a body address that is present is a string,
  the score a whole number; \<open>None\<close> is \<^verbatim>\<open>undefined\<close>.

  \<^verbatim>\<open>req.query.address\<close> is what the query parser of Express makes of the URL:
  \<^verbatim>\<open>undefined\<close> when the parameter is missing, a string when it occurs once, an
  array of strings when it is repeated (\<^verbatim>\<open>?address=a&address=b\<close>), an object when
  it is written with brackets (\<^verbatim>\<open>?address[k]=v\<close>).
\<close>

datatype query_param =
    Missing
  | Text string
  | Repeated "string list"
  | Nested "(string \<times> string) list"

record request =
  cookie_token :: "string option"
  csrf_header :: "string option"
  origin_header :: "string option"
  clientIP :: string
  originalUrl :: string
  query_address :: query_param
  body_address :: "string option"
  body_score :: "int option"

text \<open>
  The answers.  \<open>Json_error c m\<close> is \<^verbatim>\<open>res.status(c).json({ error: m })\<close>;
  \<open>Session_started token csrf\<close> sets the cookie to \<open>token\<close> and carries \<open>csrf\<close> in
  the body; \<open>Claim_paid h a\<close> is
  \<^verbatim>\<open>{ success: true, txHash: h, amount: a }\<close>.  \<open>Rate_limited\<close> and
  \<open>Cooldown_active\<close> are the two rejections of the anti-abuse module.
  \<open>Uncaught m\<close> is no answer at all: the handler's promise rejects with the error
  \<open>m\<close> outside every \<^verbatim>\<open>try\<close>, nothing is sent, and the unhandled rejection ends the
  process.
\<close>

datatype response =
    Json_error nat string
  | Session_started string string
  | Claim_paid string rat
  | Rate_limited
  | Cooldown_active
  | Uncaught error

text \<open>A middleware either answers or calls \<^verbatim>\<open>next()\<close>, handing on what it attached.\<close>

datatype 'a step = Respond response | Next 'a

definition logSecurityEvent :: "string \<Rightarrow> (string \<times> string option) list \<Rightarrow> state \<Rightarrow> state" where
  "logSecurityEvent kind details s = s\<lparr>effects := effects s @ [Log_write kind details]\<rparr>"

text \<open>\<^verbatim>\<open>x || "missing"\<close> on a string that may be absent.\<close>

definition or_else :: "string option \<Rightarrow> string \<Rightarrow> string" where
  "or_else x d = (case x of None \<Rightarrow> d | Some t \<Rightarrow> if t = [] then d else t)"

section \<open>Session verifier\<close>

text \<open>
  \<^verbatim>\<open>verifySessionToken(req, res, next)\<close>, one branch per \<^verbatim>\<open>return\<close> of the
  source, in the source's order.  On success it attaches \<^verbatim>\<open>req.sessionToken\<close>
  and \<^verbatim>\<open>req.sessionData\<close>.  A Redis failure is caught and answered with 503.
\<close>

definition verifySessionToken ::
  "config \<Rightarrow> int \<Rightarrow> request \<Rightarrow> state \<Rightarrow> state \<times> (string \<times> session) step" where
  "verifySessionToken cfg now req s =
     (case cookie_token req of
        None \<Rightarrow> (s, Respond (Json_error 401 ''Missing session token''))
      | Some token \<Rightarrow>
          if token = [] then (s, Respond (Json_error 401 ''Missing session token''))
          else
            (case redis_get now (session_key token) s of
               Inl e \<Rightarrow> (s, Respond (Json_error 503 ''Service temporarily unavailable''))
             | Inr raw \<Rightarrow>
                 if \<not> raw_truthy raw then
                   (s, Respond (Json_error 403 ''Invalid or expired session token''))
                 else
                   (case Option.bind raw JSON_parse of
                      None \<Rightarrow> (s, Respond (Json_error 500 ''Invalid session data''))
                    | Some x \<Rightarrow>
                        if production cfg \<and>
                           (\<not> truthy (csrf_header req) \<or> csrfToken x = []
                            \<or> csrf_header req \<noteq> Some (csrfToken x))
                        then
                          (logSecurityEvent ''ABUSE''
                             [(''IP'', Some (clientIP req)), (''PATH'', Some (originalUrl req)),
                              (''REASON'', Some ''CSRF'')] s,
                           Respond (Json_error 403 ''Invalid request''))
                        else if now - startedAt x < MIN_SESSION_TIME_MS cfg then
                          (s, Respond (Json_error 400 ''Session completed too quickly''))
                        else if ip x \<noteq> clientIP req then
                          (s, Respond (Json_error 403 ''IP mismatch''))
                        else if production cfg then
                          (if \<not> truthy (origin x) \<or> \<not> truthy (origin_header req)
                              \<or> origin_header req \<noteq> origin x
                           then
                             (logSecurityEvent ''ABUSE''
                                [(''IP'', Some (clientIP req)), (''PATH'', Some (originalUrl req)),
                                 (''REASON'', Some ''Origin Mismatch''),
                                 (''SESSION_ORIGIN'', Some (or_else (origin x) ''missing'')),
                                 (''REQUEST_ORIGIN'', Some (or_else (origin_header req) ''missing''))] s,
                              Respond (Json_error 403 ''Invalid request''))
                           else (s, Next (token, x)))
                        else
                          (if truthy (origin x) \<and> truthy (origin_header req)
                              \<and> origin_header req \<noteq> origin x
                           then
                             (logSecurityEvent ''ABUSE''
                                [(''IP'', Some (clientIP req)), (''PATH'', Some (originalUrl req)),
                                 (''REASON'', Some ''Origin Mismatch''),
                                 (''SESSION_ORIGIN'', origin x),
                                 (''REQUEST_ORIGIN'', origin_header req)] s,
                              Respond (Json_error 403 ''Invalid request''))
                           else (s, Next (token, x))))))"

section \<open>Origin guard\<close>

text \<open>
  \<^verbatim>\<open>getAllowedOrigins()\<close>: \<^verbatim>\<open>FRONTEND_DOMAIN\<close> split at commas, each piece
  trimmed, empty pieces dropped; nothing when the variable is unset or empty.
  \<open>split_on\<close> is \<^verbatim>\<open>String.prototype.split\<close> with a one-character separator
  and \<open>trim\<close> removes the ASCII white space at both ends.
\<close>

fun split_on :: "char \<Rightarrow> string \<Rightarrow> string list" where
  "split_on c [] = [[]]"
| "split_on c (x # xs) =
     (if x = c then [] # split_on c xs
      else (case split_on c xs of [] \<Rightarrow> [[x]] | w # ws \<Rightarrow> (x # w) # ws))"

definition is_space :: "char \<Rightarrow> bool" where
  "is_space c = (c \<in> set [CHR 0x20, CHR 0x09, CHR 0x0A, CHR 0x0B, CHR 0x0C, CHR 0x0D])"

definition trim :: "string \<Rightarrow> string" where
  "trim t = rev (dropWhile is_space (rev (dropWhile is_space t)))"

definition getAllowedOrigins :: "string option \<Rightarrow> string list" where
  "getAllowedOrigins frontendDomain =
     (if \<not> truthy frontendDomain then []
      else filter (\<lambda>domain. length domain > 0)
             (map trim (split_on CHR '','' (case frontendDomain of Some t \<Rightarrow> t | None \<Rightarrow> []))))"

definition allowedOrigins :: "config \<Rightarrow> string list" where
  "allowedOrigins cfg = getAllowedOrigins (FRONTEND_DOMAIN cfg)"

text \<open>
  \<^verbatim>\<open>requireTrustedOrigin(req, res, next)\<close>; \<open>method\<close> is \<^verbatim>\<open>req.method\<close>,
  which the router fixes for each route.
\<close>

definition requireTrustedOrigin :: "config \<Rightarrow> string \<Rightarrow> request \<Rightarrow> state \<Rightarrow> state \<times> unit step" where
  "requireTrustedOrigin cfg method req s =
     (let isProduction = production cfg;
          isStateChanging = (method \<notin> set [''GET'', ''HEAD'', ''OPTIONS''])
      in if \<not> isProduction \<and> \<not> isStateChanging then (s, Next ())
         else if length (allowedOrigins cfg) = 0 then
           (s, Respond (Json_error 500 ''Service temporarily unavailable''))
         else
           (case origin_header req of
              None \<Rightarrow>
                (logSecurityEvent ''ABUSE''
                   [(''IP'', Some (clientIP req)), (''PATH'', Some (originalUrl req)),
                    (''REASON'', Some ''Missing Origin'')] s,
                 Respond (Json_error 400 ''Invalid request''))
            | Some origin0 \<Rightarrow>
                if origin0 = [] then
                  (logSecurityEvent ''ABUSE''
                     [(''IP'', Some (clientIP req)), (''PATH'', Some (originalUrl req)),
                      (''REASON'', Some ''Missing Origin'')] s,
                   Respond (Json_error 400 ''Invalid request''))
                else if origin0 \<notin> set (allowedOrigins cfg) then
                  (logSecurityEvent ''ABUSE''
                     [(''IP'', Some (clientIP req)), (''ORIGIN'', Some origin0),
                      (''PATH'', Some (originalUrl req)), (''REASON'', Some ''Bad Origin'')] s,
                   Respond (Json_error 403 ''Invalid request''))
                else (s, Next ())))"

section \<open>Anti-abuse module\<close>

text \<open>
  Modelled from the spec: \<^verbatim>\<open>claimLimiter\<close> of \<^verbatim>\<open>middleware/rateLimit.js\<close>,
  which is not among the sources.  A counter per client address counts the claim
  attempts of the current window; an attempt that takes the count above the ceiling
  is rejected and recorded in the abuse log under its address
  (\<^verbatim>\<open>RATE_LIMIT IP=... PATH=...\<close>).
\<close>

definition claimLimiter :: "config \<Rightarrow> int \<Rightarrow> request \<Rightarrow> state \<Rightarrow> state \<times> unit step" where
  "claimLimiter cfg now req s =
     (let (window_end, hits) =
            (case rate s (clientIP req) of
               None \<Rightarrow> (now + RATE_LIMIT_WINDOW_MS cfg, 0)
             | Some (w, n) \<Rightarrow> if now < w then (w, n) else (now + RATE_LIMIT_WINDOW_MS cfg, 0));
          s1 = s\<lparr>rate := (rate s)(clientIP req \<mapsto> (window_end, Suc hits)),
                 effects := effects s @ [Rate_hit (clientIP req)]\<rparr>
      in if RATE_LIMIT_MAX cfg < Suc hits then
           (logSecurityEvent ''RATE_LIMIT''
              [(''IP'', Some (clientIP req)), (''PATH'', Some (originalUrl req))] s1,
            Respond Rate_limited)
         else (s1, Next ()))"

text \<open>
  Modelled from the spec: the cooldown lookup of \<^verbatim>\<open>middleware/antiAbuse.js\<close>,
  which is not among the sources.  The existence of an unexpired record is the sole
  signal.
\<close>

definition on_cooldown :: "int \<Rightarrow> cooldown_key \<Rightarrow> state \<Rightarrow> bool" where
  "on_cooldown now k s =
     (case cooldown s k of None \<Rightarrow> False | Some (claimed, expires) \<Rightarrow> now < expires)"

text \<open>
  Modelled from the spec: \<^verbatim>\<open>checkCooldown\<close> of \<^verbatim>\<open>middleware/antiAbuse.js\<close>,
  which is not among the sources.  It looks up the cooldown record of the request's
  address and of the claimed payout address; an unexpired record of either rejects
  the claim, and the rejection is logged (\<^verbatim>\<open>ABUSE IP=... ADDR=... REASON=Cooldown\<close>).
\<close>

definition checkCooldown :: "config \<Rightarrow> int \<Rightarrow> request \<Rightarrow> state \<Rightarrow> state \<times> unit step" where
  "checkCooldown cfg now req s =
     (if on_cooldown now (By_ip (clientIP req)) s
         \<or> (case body_address req of None \<Rightarrow> False | Some a \<Rightarrow> on_cooldown now (By_address a) s)
      then
        (logSecurityEvent ''ABUSE''
           [(''IP'', Some (clientIP req)), (''ADDR'', body_address req),
            (''REASON'', Some ''Cooldown'')] s,
         Respond Cooldown_active)
      else (s, Next ()))"

text \<open>
  Modelled from the spec: the cooldown commit of \<^verbatim>\<open>middleware/antiAbuse.js\<close>,
  which is not among the sources.  It leaves the record keyed by the client address
  and the record keyed by the payout address in the state, each holding the instant
  of the claim, both with the fixed expiry \<^verbatim>\<open>COOLDOWN_SECONDS\<close>.  Nothing but the
  cooldown records changes, and no order between the two records is expressed.
\<close>

definition commitCooldown :: "config \<Rightarrow> int \<Rightarrow> request \<Rightarrow> state \<Rightarrow> state" where
  "commitCooldown cfg now req s =
     s\<lparr>cooldown :=
         (\<lambda>k. if k = By_ip (clientIP req) \<or> Some k = map_option By_address (body_address req)
              then Some (now, now + 1000 * COOLDOWN_SECONDS cfg)
              else cooldown s k)\<rparr>"

text \<open>
  Modelled from the spec: \<^verbatim>\<open>setCooldownOnSuccess\<close> of
  \<^verbatim>\<open>middleware/antiAbuse.js\<close>, which is not among the sources.  The route
  installs it in front of the claim handler.  The cooldown is committed only for a
  claim that the handler answers with a successful payout, that is only after a
  successful disbursement; any other answer commits nothing.  At which instant
  after the payout the records are written is not expressed: the commit changes the
  cooldown records alone, which the handler neither reads nor writes, so the
  resulting state is the same wherever the commit falls among the handler's last
  steps.
\<close>

definition setCooldownOnSuccess ::
  "config \<Rightarrow> int \<Rightarrow> request \<Rightarrow> (state \<Rightarrow> state \<times> response) \<Rightarrow> state \<Rightarrow> state \<times> response" where
  "setCooldownOnSuccess cfg now req handler s =
     (case handler s of
        (s1, Claim_paid txHash amount) \<Rightarrow> (commitCooldown cfg now req s1, Claim_paid txHash amount)
      | (s1, r) \<Rightarrow> (s1, r))"

section \<open>Routes\<close>

text \<open>
  The wallet is an external service: for one request, \<open>getBalance\<close> is what
  \<^verbatim>\<open>ccx.getBalance(sourceAddress)\<close> resolves to (the available balance) or the
  message it throws, and \<open>sendTransaction\<close> is the transaction hash that
  \<^verbatim>\<open>ccx.sendTransaction(opts)\<close> resolves to or the message it throws.
\<close>

record wallet =
  getBalance :: "error + int"
  sendTransaction :: "error + string"

text \<open>\<^verbatim>\<open>e.message || "Payment failed"\<close>\<close>

definition payment_message :: "error \<Rightarrow> string" where
  "payment_message m = (if m = [] then ''Payment failed'' else m)"

definition startsWith :: "string \<Rightarrow> string \<Rightarrow> bool" where
  "startsWith t p = (take (length p) t = p)"

text \<open>
  The handler of \<^verbatim>\<open>GET /start-game\<close>.  The three format checks stand before the
  \<^verbatim>\<open>try\<close>.  An array or an object is truthy and has no method
  \<^verbatim>\<open>startsWith\<close>, so the second check throws a \<^verbatim>\<open>TypeError\<close> that nothing
  catches.  The origin bound to the session is \<^verbatim>\<open>req.headers.origin || null\<close>.
\<close>

definition start_game_handler ::
  "config \<Rightarrow> int \<Rightarrow> string \<times> string \<Rightarrow> request \<Rightarrow> state \<Rightarrow> state \<times> response" where
  "start_game_handler cfg now rnd req s =
     (case query_address req of
        Missing \<Rightarrow> (s, Json_error 400 ''Invalid CCX address'')
      | Repeated as \<Rightarrow> (s, Uncaught ''address.startsWith is not a function'')
      | Nested kvs \<Rightarrow> (s, Uncaught ''address.startsWith is not a function'')
      | Text a \<Rightarrow>
          if a = [] then (s, Json_error 400 ''Invalid CCX address'')
          else if \<not> startsWith a ''ccx7'' then (s, Json_error 400 ''Invalid CCX address'')
          else if length a \<noteq> 98 then (s, Json_error 400 ''Invalid CCX address'')
          else
            (case createSession cfg now rnd (clientIP req) a
                    (if truthy (origin_header req) then origin_header req else None) s of
               (s1, Inl e) \<Rightarrow> (s1, Json_error 500 ''Failed to create session'')
             | (s1, Inr (token, csrf)) \<Rightarrow> (s1, Session_started token csrf)))"

definition start_game_route ::
  "config \<Rightarrow> int \<Rightarrow> string \<times> string \<Rightarrow> request \<Rightarrow> state \<Rightarrow> state \<times> response" where
  "start_game_route cfg now rnd req s =
     (case requireTrustedOrigin cfg ''GET'' req s of
        (s1, Respond r) \<Rightarrow> (s1, r)
      | (s1, Next u) \<Rightarrow> start_game_handler cfg now rnd req s1)"

text \<open>
  The handler of \<^verbatim>\<open>POST /claim\<close>, entered with the token and the session that
  the verifier attached.  The amount of the answer is
  \<^verbatim>\<open>FAUCET_AMOUNT / 1000000\<close>, here the exact quotient.
\<close>

definition claim_handler ::
  "config \<Rightarrow> wallet \<Rightarrow> int \<Rightarrow> request \<Rightarrow> string \<Rightarrow> session \<Rightarrow> state \<Rightarrow> state \<times> response" where
  "claim_handler cfg w now req token x s =
     (let sessionAddr = address x;
          reject = (logSecurityEvent ''ABUSE''
                      [(''IP'', Some (clientIP req)), (''ADDR'', body_address req),
                       (''REASON'', Some ''Validation'')] s,
                    Json_error 400 ''Invalid request'')
      in case body_address req of
           None \<Rightarrow> reject
         | Some a \<Rightarrow>
             if a = [] \<or> a \<noteq> sessionAddr then reject
             else if (case body_score req of None \<Rightarrow> True | Some sc \<Rightarrow> sc = 0 \<or> sc < MIN_SCORE cfg)
             then reject
             else
               (let amount = FAUCET_AMOUNT cfg;
                    minBalance = FAUCET_MIN_BALANCE cfg
                in case getBalance w of
                     Inl m \<Rightarrow> (s, Json_error 500 (payment_message m))
                   | Inr availableBalance \<Rightarrow>
                       if availableBalance < minBalance then
                         (s, Json_error 503 ''Not enough funds in Faucet'')
                       else
                         (let s1 = s\<lparr>effects := effects s @ [Wallet_send a amount]\<rparr>
                          in case sendTransaction w of
                               Inl m \<Rightarrow> (s1, Json_error 500 (payment_message m))
                             | Inr txHash \<Rightarrow>
                                 (case deleteSession now token s1 of
                                    (s2, Some m) \<Rightarrow> (s2, Json_error 500 (payment_message m))
                                  | (s2, None) \<Rightarrow>
                                      (s2, Claim_paid txHash (of_int amount / 1000000))))))"

text \<open>
  \<^verbatim>\<open>router.post("/claim", requireTrustedOrigin, claimLimiter, verifySessionToken,
  checkCooldown, setCooldownOnSuccess, handler)\<close>
\<close>

definition claim_route :: "config \<Rightarrow> wallet \<Rightarrow> int \<Rightarrow> request \<Rightarrow> state \<Rightarrow> state \<times> response" where
  "claim_route cfg w now req s =
     (case requireTrustedOrigin cfg ''POST'' req s of
        (s1, Respond r) \<Rightarrow> (s1, r)
      | (s1, Next u) \<Rightarrow>
          (case claimLimiter cfg now req s1 of
             (s2, Respond r) \<Rightarrow> (s2, r)
           | (s2, Next u) \<Rightarrow>
               (case verifySessionToken cfg now req s2 of
                  (s3, Respond r) \<Rightarrow> (s3, r)
                | (s3, Next (token, x)) \<Rightarrow>
                    (case checkCooldown cfg now req s3 of
                       (s4, Respond r) \<Rightarrow> (s4, r)
                     | (s4, Next u) \<Rightarrow>
                         setCooldownOnSuccess cfg now req
                           (claim_handler cfg w now req token x) s4))))"

section \<open>The verifier as a chain of checks\<close>

text \<open>
  The design describes the verifier as six checks run in a fixed order, the first
  failure deciding the answer.  This second description is written from that wording
  and compared with \<open>verifySessionToken\<close> below.  Each check answers \<open>None\<close> when it
  passes and otherwise gives the rejection together with the state after its log
  line.  The checks after the second one look at the session stored under the
  request's token.
\<close>

type_synonym check = "config \<Rightarrow> int \<Rightarrow> request \<Rightarrow> state \<Rightarrow> (state \<times> response) option"

definition stored_session :: "int \<Rightarrow> request \<Rightarrow> state \<Rightarrow> session option" where
  "stored_session now req s =
     (case cookie_token req of
        None \<Rightarrow> None
      | Some token \<Rightarrow>
          (case redis_get now (session_key token) s of
             Inl e \<Rightarrow> None
           | Inr raw \<Rightarrow> Option.bind raw JSON_parse))"

definition csrf_mismatch :: "config \<Rightarrow> request \<Rightarrow> session \<Rightarrow> bool" where
  "csrf_mismatch cfg req x =
     (production cfg \<and>
      (\<not> truthy (csrf_header req) \<or> csrfToken x = [] \<or> csrf_header req \<noteq> Some (csrfToken x)))"

definition too_young :: "config \<Rightarrow> int \<Rightarrow> session \<Rightarrow> bool" where
  "too_young cfg now x = (now - startedAt x < MIN_SESSION_TIME_MS cfg)"

definition ip_mismatch :: "request \<Rightarrow> session \<Rightarrow> bool" where
  "ip_mismatch req x = (ip x \<noteq> clientIP req)"

definition origin_mismatch :: "config \<Rightarrow> request \<Rightarrow> session \<Rightarrow> bool" where
  "origin_mismatch cfg req x =
     (if production cfg
      then \<not> truthy (origin x) \<or> \<not> truthy (origin_header req) \<or> origin_header req \<noteq> origin x
      else truthy (origin x) \<and> truthy (origin_header req) \<and> origin_header req \<noteq> origin x)"

definition csrf_log :: "request \<Rightarrow> effect" where
  "csrf_log req =
     Log_write ''ABUSE''
       [(''IP'', Some (clientIP req)), (''PATH'', Some (originalUrl req)), (''REASON'', Some ''CSRF'')]"

definition origin_log :: "config \<Rightarrow> request \<Rightarrow> session \<Rightarrow> effect" where
  "origin_log cfg req x =
     Log_write ''ABUSE''
       [(''IP'', Some (clientIP req)), (''PATH'', Some (originalUrl req)),
        (''REASON'', Some ''Origin Mismatch''),
        (''SESSION_ORIGIN'',
           if production cfg then Some (or_else (origin x) ''missing'') else origin x),
        (''REQUEST_ORIGIN'',
           if production cfg then Some (or_else (origin_header req) ''missing'')
           else origin_header req)]"

definition check_presence :: check where
  "check_presence cfg now req s =
     (if truthy (cookie_token req) then None
      else Some (s, Json_error 401 ''Missing session token''))"

definition check_existence :: check where
  "check_existence cfg now req s =
     (case stored_session now req s of
        None \<Rightarrow> Some (s, Json_error 403 ''Invalid or expired session token'')
      | Some x \<Rightarrow> None)"

definition check_csrf :: check where
  "check_csrf cfg now req s =
     (case stored_session now req s of
        None \<Rightarrow> None
      | Some x \<Rightarrow>
          if csrf_mismatch cfg req x
          then Some (s\<lparr>effects := effects s @ [csrf_log req]\<rparr>, Json_error 403 ''Invalid request'')
          else None)"

definition check_dwell :: check where
  "check_dwell cfg now req s =
     (case stored_session now req s of
        None \<Rightarrow> None
      | Some x \<Rightarrow>
          if too_young cfg now x then Some (s, Json_error 400 ''Session completed too quickly'')
          else None)"

definition check_ip :: check where
  "check_ip cfg now req s =
     (case stored_session now req s of
        None \<Rightarrow> None
      | Some x \<Rightarrow> if ip_mismatch req x then Some (s, Json_error 403 ''IP mismatch'') else None)"

definition check_origin :: check where
  "check_origin cfg now req s =
     (case stored_session now req s of
        None \<Rightarrow> None
      | Some x \<Rightarrow>
          if origin_mismatch cfg req x
          then Some (s\<lparr>effects := effects s @ [origin_log cfg req x]\<rparr>,
                     Json_error 403 ''Invalid request'')
          else None)"

fun first_failure :: "check list \<Rightarrow> check" where
  "first_failure [] cfg now req s = None"
| "first_failure (c # cs) cfg now req s =
     (case c cfg now req s of
        Some rejection \<Rightarrow> Some rejection
      | None \<Rightarrow> first_failure cs cfg now req s)"

definition verifier_chain :: check where
  "verifier_chain =
     first_failure [check_presence, check_existence, check_csrf, check_dwell, check_ip, check_origin]"

section \<open>Auxiliary notions\<close>

text \<open>A token as \<^verbatim>\<open>crypto.randomBytes(32).toString("hex")\<close> produces it.\<close>

definition is_hex_token :: "string \<Rightarrow> bool" where
  "is_hex_token t = (length t = 64 \<and> list_all (\<lambda>c. c \<in> set ''0123456789abcdef'') t)"

text \<open>\<^verbatim>\<open>FRONTEND_DOMAIN\<close> is unset, or every piece between its commas is blank.\<close>

definition no_entries :: "string option \<Rightarrow> bool" where
  "no_entries frontendDomain =
     (case frontendDomain of
        None \<Rightarrow> True
      | Some t \<Rightarrow> list_all (list_all is_space) (split_on CHR '','' t))"

text \<open>A missing or string-valued address that fails the format check of \<^verbatim>\<open>/start-game\<close>.\<close>

definition malformed_address :: "query_param \<Rightarrow> bool" where
  "malformed_address a =
     (case a of
        Missing \<Rightarrow> True
      | Text t \<Rightarrow> \<not> startsWith t ''ccx7'' \<or> length t \<noteq> 98
      | Repeated as \<Rightarrow> False
      | Nested kvs \<Rightarrow> False)"

section \<open>Consistency of the store\<close>

text \<open>
  The address index is kept in step with the sessions: every session record that
  has not expired sits under the key of a hexadecimal token and is named by the index
  entry of its address, which expires at the same instant; and every index entry that
  has not expired holds a hexadecimal token.  Nothing else is in the store.
\<close>

definition store_ok :: "int \<Rightarrow> state \<Rightarrow> bool" where
  "store_ok now s \<longleftrightarrow>
     (\<forall>k e v. redis s k = Some (e, v) \<and> now < e \<longrightarrow>
        (\<exists>t x. k = session_key t \<and> is_hex_token t \<and> v = Json_text x
               \<and> redis s (address_key (address x)) = Some (e, Plain t))
        \<or> (\<exists>a t. k = address_key a \<and> is_hex_token t \<and> v = Plain t))"

text \<open>
  The two routes as the router dispatches them, and the service running through a
  list of calls.  A list of calls is orderly when time does not run backwards and the
  random tokens are hexadecimal.
\<close>

datatype call = Start_game int "string \<times> string" request | Claim wallet int request

fun call_time :: "call \<Rightarrow> int" where
  "call_time (Start_game now rnd req) = now"
| "call_time (Claim w now req) = now"

fun serve :: "config \<Rightarrow> call \<Rightarrow> state \<Rightarrow> state \<times> response" where
  "serve cfg (Start_game now rnd req) s = start_game_route cfg now rnd req s"
| "serve cfg (Claim w now req) s = claim_route cfg w now req s"

fun serve_all :: "config \<Rightarrow> call list \<Rightarrow> state \<Rightarrow> state" where
  "serve_all cfg [] s = s"
| "serve_all cfg (c # cs) s = serve_all cfg cs (fst (serve cfg c s))"

fun orderly :: "int \<Rightarrow> call list \<Rightarrow> bool" where
  "orderly t [] = True"
| "orderly t (Start_game now rnd req # cs) = (t \<le> now \<and> is_hex_token (fst rnd) \<and> orderly now cs)"
| "orderly t (Claim w now req # cs) = (t \<le> now \<and> orderly now cs)"

fun end_time :: "int \<Rightarrow> call list \<Rightarrow> int" where
  "end_time t [] = t"
| "end_time t (c # cs) = end_time (call_time c) cs"

section \<open>A concrete scenario\<close>

text \<open>
  A production deployment with one trusted front end, a player at \<open>1.2.3.4\<close> who
  starts a game at instant \<open>0\<close> and claims six seconds later, and a wallet that pays.
\<close>

definition demo_cfg :: config where
  "demo_cfg =
     \<lparr>production = True, FRONTEND_DOMAIN = Some ''https://f.example'',
      MIN_SESSION_TIME_MS = 5000, SESSION_TTL_MS = 600000, MIN_SCORE = 1000,
      FAUCET_AMOUNT = 1123456, FAUCET_MIN_BALANCE = 0,
      FAUCET_ADDRESS = ''ccx7faucet'', RATE_LIMIT_MAX = 5, RATE_LIMIT_WINDOW_MS = 600000,
      COOLDOWN_SECONDS = 86400\<rparr>"

definition demo_address :: string where
  "demo_address =
     ''ccx7Zbm7PjafXKvb3naqpGXzhLtAXesKiR5UXUbfwD9MCf77XdvXf1TX64KdDjcTDb3E7dS6MGE2GKT3w4DuCb8H9dwvWWGuof''"

definition demo_token :: string where
  "demo_token = ''ca978112ca1bbdcafac231b39a23dc4da786eff8147c4e72b9807785afee48bb''"

definition demo_csrf :: string where
  "demo_csrf = ''3e23e8160039594a33894f6564e1b1348bbd7a0088d42c4acb73eeaed59c009d''"

definition demo_token2 :: string where
  "demo_token2 = ''2e7d2c03a9507ae265ecf5b5356885a53393a2029d241394997265a1a25aefc6''"

definition demo_csrf2 :: string where
  "demo_csrf2 = ''18ac3e7343f016890c510e93f935261169d9e3f565436429830faf0934f4f8e4''"

definition demo_empty :: state where
  "demo_empty =
     \<lparr>redis_fault = None, redis = Map.empty, cooldown = Map.empty, rate = Map.empty,
      effects = []\<rparr>"

definition demo_start :: request where
  "demo_start =
     \<lparr>cookie_token = None, csrf_header = None, origin_header = Some ''https://f.example'',
      clientIP = ''1.2.3.4'', originalUrl = ''/api/start-game'',
      query_address = Text demo_address, body_address = None, body_score = None\<rparr>"

definition demo_session :: session where
  "demo_session =
     \<lparr>ip = ''1.2.3.4'', address = demo_address, origin = Some ''https://f.example'',
      startedAt = 0, csrfToken = demo_csrf\<rparr>"

definition demo_started :: state where
  "demo_started =
     \<lparr>redis_fault = None,
      redis = [session_key demo_token \<mapsto> (600000, Json_text demo_session),
               address_key demo_address \<mapsto> (600000, Plain demo_token)],
      cooldown = Map.empty, rate = Map.empty,
      effects = [Store_set (session_key demo_token) 600 (Json_text demo_session),
                 Store_set (address_key demo_address) 600 (Plain demo_token)]\<rparr>"

definition demo_claim :: request where
  "demo_claim =
     \<lparr>cookie_token = Some demo_token, csrf_header = Some demo_csrf,
      origin_header = Some ''https://f.example'', clientIP = ''1.2.3.4'',
      originalUrl = ''/api/claim'', query_address = Missing,
      body_address = Some demo_address, body_score = Some 1500\<rparr>"

definition demo_wallet :: wallet where
  "demo_wallet = \<lparr>getBalance = Inr 50000000, sendTransaction = Inr ''abcdef1234''\<rparr>"

text \<open>The state in which the verifier sees the claim: the rate limiter has counted it.\<close>

definition demo_limited :: state where
  "demo_limited =
     demo_started\<lparr>rate := [''1.2.3.4'' \<mapsto> (606000, 1)],
                   effects := effects demo_started @ [Rate_hit ''1.2.3.4'']\<rparr>"

text \<open>A development deployment without \<^verbatim>\<open>FRONTEND_DOMAIN\<close>.\<close>

definition demo_dev_cfg :: config where
  "demo_dev_cfg = demo_cfg\<lparr>production := False, FRONTEND_DOMAIN := None\<rparr>"

text \<open>
  Three claims that go wrong: one without the CSRF header, one sent from another
  front end, one replayed from another network.
\<close>

definition demo_forged :: request where
  "demo_forged = demo_claim\<lparr>csrf_header := None\<rparr>"

definition demo_foreign :: request where
  "demo_foreign = demo_claim\<lparr>origin_header := Some ''https://g.example''\<rparr>"

definition demo_stolen :: request where
  "demo_stolen = demo_claim\<lparr>clientIP := ''6.6.6.6''\<rparr>"

text \<open>A wallet whose transfer fails, and a production deployment whose list of front ends is blank.\<close>

definition demo_broken_wallet :: wallet where
  "demo_broken_wallet = \<lparr>getBalance = Inr 50000000, sendTransaction = Inl ''Wallet RPC timeout''\<rparr>"

definition demo_blank_cfg :: config where
  "demo_blank_cfg = demo_cfg\<lparr>FRONTEND_DOMAIN := Some '' , ''\<rparr>"

text \<open>A request to start a game with an address that is too short.\<close>

definition demo_bad_start :: request where
  "demo_bad_start = demo_start\<lparr>query_address := Text ''ccx7tooshort''\<rparr>"

text \<open>
  A request to start a game whose URL repeats the parameter:
  \<^verbatim>\<open>/api/start-game?address=abc&address=def\<close>
\<close>

definition demo_repeated_start :: request where
  "demo_repeated_start = demo_start\<lparr>query_address := Repeated [''abc'', ''def'']\<rparr>"

section \<open>Basic facts\<close>

lemmas demo_defs =
  demo_cfg_def demo_start_def demo_empty_def demo_started_def demo_session_def demo_address_def
  demo_token_def demo_csrf_def demo_claim_def demo_wallet_def demo_limited_def demo_dev_cfg_def
  demo_token2_def demo_csrf2_def demo_forged_def demo_foreign_def demo_stolen_def
  demo_broken_wallet_def demo_blank_cfg_def demo_bad_start_def demo_repeated_start_def

lemma session_key_inject [simp]: "session_key t = session_key t' \<longleftrightarrow> t = t'"
  by (simp add: session_key_def)

lemma address_key_inject [simp]: "address_key a = address_key a' \<longleftrightarrow> a = a'"
  by (simp add: address_key_def)

text \<open>
  The two key spaces overlap: the session key of the token \<^verbatim>\<open>addr:A\<close> is the index
  key of the address \<open>A\<close>.  A hexadecimal token never has that shape.
\<close>

lemma session_key_address_key: "session_key t = address_key a \<longleftrightarrow> t = ''addr:'' @ a"
  by (auto simp: session_key_def address_key_def)

lemma hex_token_keys: "is_hex_token t \<Longrightarrow> session_key t \<noteq> address_key a"
  by (cases t) (auto simp: session_key_address_key is_hex_token_def)

lemma hex_token_keys_simps [simp]:
  "is_hex_token t \<Longrightarrow> (session_key t = address_key a) = False"
  "is_hex_token t \<Longrightarrow> (address_key a = session_key t) = False"
  using hex_token_keys [of t a] by auto

lemma hex_token_nonempty [simp]: "\<not> is_hex_token []"
  by (simp add: is_hex_token_def)

lemma bind_JSON_parse:
  "Option.bind raw JSON_parse = Some x \<longleftrightarrow> raw = Some (Json_text x)"
proof (cases raw)
  case None
  then show ?thesis by simp
next
  case (Some v)
  then show ?thesis by (cases v) auto
qed

section \<open>Deleting a session\<close>

text \<open>
  Claim C9.  \<open>deleteSession\<close> is idempotent.  When the token has a session record, it
  deletes the record and the index entry of the address stored in it, and reports no
  error.  When the token has no record, it changes nothing and reports no error.
  Deleting the same token a second time, at the same or a later instant, gives the
  same state and the same outcome as deleting it once.
\<close>

theorem deleteSession_idempotent:
  "(\<forall>x. redis_get now (session_key token) s = Inr (Some (Json_text x)) \<longrightarrow>
        deleteSession now token s =
          (s\<lparr>redis := (redis s)(session_key token := None, address_key (address x) := None),
             effects := effects s @ [Store_del (session_key token),
                                     Store_del (address_key (address x))]\<rparr>, None))
   \<and> (redis_get now (session_key token) s = Inr None \<longrightarrow> deleteSession now token s = (s, None))
   \<and> (now \<le> now' \<longrightarrow>
        deleteSession now' token (fst (deleteSession now token s)) = deleteSession now token s)"
  apply (intro conjI allI impI)
    apply (auto simp: deleteSession_def promise_all2_def redis_get_def redis_del_def
      split: option.splits if_splits prod.splits sum.splits redis_val.splits)
  done

theorem deleteSession_idempotent_witness:
  "redis_get 1000 (session_key demo_token) demo_started = Inr (Some (Json_text demo_session))
   \<and> redis_get 1000 (session_key demo_token2) demo_started = Inr None
   \<and> (1000 :: int) \<le> 2000
   \<and> deleteSession 1000 demo_token demo_started =
       (demo_started\<lparr>redis := (redis demo_started)
                        (session_key demo_token := None,
                         address_key (address demo_session) := None),
                     effects := effects demo_started
                        @ [Store_del (session_key demo_token),
                           Store_del (address_key (address demo_session))]\<rparr>, None)
   \<and> deleteSession 1000 demo_token2 demo_started = (demo_started, None)
   \<and> deleteSession 2000 demo_token (fst (deleteSession 1000 demo_token demo_started))
       = deleteSession 1000 demo_token demo_started"
proof -
  have g1: "redis_get 1000 (session_key demo_token) demo_started
              = Inr (Some (Json_text demo_session))"
    by (simp add: demo_defs redis_get_def session_key_def address_key_def)
  have g2: "redis_get 1000 (session_key demo_token2) demo_started = Inr None"
    by (simp add: demo_defs redis_get_def session_key_def address_key_def)
  have le: "(1000 :: int) \<le> 2000" by simp
  show ?thesis
    using g1 g2 le
      deleteSession_idempotent [of 1000 demo_token demo_started 2000]
      deleteSession_idempotent [of 1000 demo_token2 demo_started 2000]
    by blast
qed

section \<open>Creating a session\<close>

text \<open>
  What \<open>createSession\<close> does to a store that answers: the old session and index
  entry go first, the two new keys are written next, with one lifetime.
\<close>

lemma createSession_runs:
  "(\<forall>m. redis_fault s = Some m \<longrightarrow>
        createSession cfg now (token, csrf) ip0 a origin0 s = (s, Inl m))
   \<and> (redis_fault s = None \<and> 1000 \<le> SESSION_TTL_MS cfg \<and> is_hex_token token \<longrightarrow>
        (\<exists>s'. createSession cfg now (token, csrf) ip0 a origin0 s = (s', Inr (token, csrf))
           \<and> redis s' (session_key token) =
               Some (now + 1000 * (SESSION_TTL_MS cfg div 1000),
                     Json_text \<lparr>ip = ip0, address = a, origin = origin0, startedAt = now,
                                csrfToken = csrf\<rparr>)
           \<and> redis s' (address_key a) =
               Some (now + 1000 * (SESSION_TTL_MS cfg div 1000), Plain token)
           \<and> effects s' =
               effects s
               @ (case redis_get now (address_key a) s of
                    Inr (Some v) \<Rightarrow>
                      if raw_truthy (Some v)
                      then [Store_del (session_key (text_of v)), Store_del (address_key a)]
                      else []
                  | _ \<Rightarrow> [])
               @ [Store_set (session_key token) (SESSION_TTL_MS cfg div 1000)
                    (Json_text \<lparr>ip = ip0, address = a, origin = origin0, startedAt = now,
                                 csrfToken = csrf\<rparr>),
                  Store_set (address_key a) (SESSION_TTL_MS cfg div 1000) (Plain token)]
           \<and> (\<forall>old. is_hex_token old \<and> old \<noteq> token
                      \<and> redis_get now (address_key a) s = Inr (Some (Plain old)) \<longrightarrow>
                  (\<forall>now'. redis_get now' (session_key old) s' = Inr None))))"
proof (intro conjI allI impI)
  fix m assume "redis_fault s = Some m"
  then show "createSession cfg now (token, csrf) ip0 a origin0 s = (s, Inl m)"
    by (simp add: createSession_def deleteSessionsForAddress_def redis_get_def)
next
  assume h: "redis_fault s = None \<and> 1000 \<le> SESSION_TTL_MS cfg \<and> is_hex_token token"
  then have ttl: "\<not> SESSION_TTL_MS cfg div 1000 \<le> 0" by linarith
  show "\<exists>s'. createSession cfg now (token, csrf) ip0 a origin0 s = (s', Inr (token, csrf))
           \<and> redis s' (session_key token) =
               Some (now + 1000 * (SESSION_TTL_MS cfg div 1000),
                     Json_text \<lparr>ip = ip0, address = a, origin = origin0, startedAt = now,
                                csrfToken = csrf\<rparr>)
           \<and> redis s' (address_key a) =
               Some (now + 1000 * (SESSION_TTL_MS cfg div 1000), Plain token)
           \<and> effects s' =
               effects s
               @ (case redis_get now (address_key a) s of
                    Inr (Some v) \<Rightarrow>
                      if raw_truthy (Some v)
                      then [Store_del (session_key (text_of v)), Store_del (address_key a)]
                      else []
                  | _ \<Rightarrow> [])
               @ [Store_set (session_key token) (SESSION_TTL_MS cfg div 1000)
                    (Json_text \<lparr>ip = ip0, address = a, origin = origin0, startedAt = now,
                                 csrfToken = csrf\<rparr>),
                  Store_set (address_key a) (SESSION_TTL_MS cfg div 1000) (Plain token)]
           \<and> (\<forall>old. is_hex_token old \<and> old \<noteq> token
                      \<and> redis_get now (address_key a) s = Inr (Some (Plain old)) \<longrightarrow>
                  (\<forall>now'. redis_get now' (session_key old) s' = Inr None))"
    using h ttl
    by (auto simp: createSession_def deleteSessionsForAddress_def promise_all2_def redis_get_def
        redis_del_def redis_setEx_def Let_def split: option.splits prod.splits if_splits)
qed

section \<open>The session verifier\<close>

lemmas check_defs = check_presence_def check_existence_def check_csrf_def check_dwell_def
  check_ip_def check_origin_def stored_session_def csrf_mismatch_def too_young_def
  ip_mismatch_def origin_mismatch_def csrf_log_def origin_log_def

text \<open>
  With the session found and parsed, the verifier is a cascade of four tests.
\<close>

lemma verify_found:
  assumes "cookie_token req = Some token" "token \<noteq> []"
    and "redis_get now (session_key token) s = Inr (Some (Json_text x))"
  shows "verifySessionToken cfg now req s =
     (if csrf_mismatch cfg req x
      then (s\<lparr>effects := effects s @ [csrf_log req]\<rparr>, Respond (Json_error 403 ''Invalid request''))
      else if too_young cfg now x
      then (s, Respond (Json_error 400 ''Session completed too quickly''))
      else if ip_mismatch req x then (s, Respond (Json_error 403 ''IP mismatch''))
      else if origin_mismatch cfg req x
      then (s\<lparr>effects := effects s @ [origin_log cfg req x]\<rparr>,
            Respond (Json_error 403 ''Invalid request''))
      else (s, Next (token, x)))"
  using assms
  by (simp add: verifySessionToken_def logSecurityEvent_def csrf_mismatch_def too_young_def
      ip_mismatch_def origin_mismatch_def csrf_log_def origin_log_def)

lemma demo_lookup:
  "redis_get 6000 (session_key demo_token) demo_limited = Inr (Some (Json_text demo_session))"
  by (simp add: demo_defs redis_get_def session_key_def address_key_def)

text \<open>
  Claim C3.  The verifier runs its checks in the order presence, existence, CSRF
  match (production only), dwell time, IP match, origin match.  Whenever Redis
  answers and the value stored under the token, if any, is a serialised session, the
  verifier gives exactly the rejection of the first check of that list that fails,
  and when none fails it hands on the token and the stored session unchanged.  (The
  two other exits of the source, 503 on a Redis failure and 500 on a stored value
  that does not parse, are what the hypothesis sets aside.)
\<close>

theorem verifier_runs_checks_in_order:
  "redis_fault s = None
   \<and> (\<forall>token v. cookie_token req = Some token
          \<and> redis_get now (session_key token) s = Inr (Some v) \<longrightarrow> (\<exists>x. v = Json_text x))
   \<longrightarrow>
     (\<forall>s' r. verifier_chain cfg now req s = Some (s', r) \<longrightarrow>
         verifySessionToken cfg now req s = (s', Respond r))
   \<and> (verifier_chain cfg now req s = None \<longrightarrow>
         (\<exists>token x. cookie_token req = Some token \<and> stored_session now req s = Some x
            \<and> verifySessionToken cfg now req s = (s, Next (token, x))))"
proof (intro impI, elim conjE)
  assume up: "redis_fault s = None"
    and wf: "\<forall>token v. cookie_token req = Some token
          \<and> redis_get now (session_key token) s = Inr (Some v) \<longrightarrow> (\<exists>x. v = Json_text x)"
  show "(\<forall>s' r. verifier_chain cfg now req s = Some (s', r) \<longrightarrow>
         verifySessionToken cfg now req s = (s', Respond r))
   \<and> (verifier_chain cfg now req s = None \<longrightarrow>
         (\<exists>token x. cookie_token req = Some token \<and> stored_session now req s = Some x
            \<and> verifySessionToken cfg now req s = (s, Next (token, x))))"
  proof (cases "cookie_token req")
    case None
    then show ?thesis
      by (simp add: verifier_chain_def check_defs verifySessionToken_def)
  next
    case (Some token)
    show ?thesis
    proof (cases "token = []")
      case True
      with Some show ?thesis
        by (simp add: verifier_chain_def check_defs verifySessionToken_def)
    next
      case False
      from up have "\<exists>raw. redis_get now (session_key token) s = Inr raw"
        by (simp add: redis_get_def split: option.splits prod.splits)
      then obtain raw where g: "redis_get now (session_key token) s = Inr raw" ..
      show ?thesis
      proof (cases raw)
        case None
        with Some False g show ?thesis
          by (simp add: verifier_chain_def check_defs verifySessionToken_def)
      next
        case (Some v)
        with wf g \<open>cookie_token req = Some token\<close> obtain x where v: "v = Json_text x"
          by blast
        with Some g False \<open>cookie_token req = Some token\<close> show ?thesis
          by (simp add: verifier_chain_def check_defs verifySessionToken_def logSecurityEvent_def)
      qed
    qed
  qed
qed

theorem verifier_runs_checks_in_order_witness:
  "redis_fault demo_limited = None
   \<and> cookie_token demo_claim = Some demo_token
   \<and> cookie_token demo_stolen = Some demo_token
   \<and> redis_get 6000 (session_key demo_token) demo_limited = Inr (Some (Json_text demo_session))
   \<and> verifier_chain demo_cfg 6000 demo_claim demo_limited = None
   \<and> verifier_chain demo_cfg 6000 demo_stolen demo_limited
         = Some (demo_limited, Json_error 403 ''IP mismatch'')
   \<and> verifySessionToken demo_cfg 6000 demo_claim demo_limited
         = (demo_limited, Next (demo_token, demo_session))
   \<and> verifySessionToken demo_cfg 6000 demo_stolen demo_limited
         = (demo_limited, Respond (Json_error 403 ''IP mismatch''))"
proof -
  have up: "redis_fault demo_limited = None"
    by (simp add: demo_defs)
  have wf1: "\<forall>token v. cookie_token demo_claim = Some token
          \<and> redis_get 6000 (session_key token) demo_limited = Inr (Some v) \<longrightarrow> (\<exists>x. v = Json_text x)"
    by (simp add: demo_defs redis_get_def session_key_def address_key_def)
  have wf2: "\<forall>token v. cookie_token demo_stolen = Some token
          \<and> redis_get 6000 (session_key token) demo_limited = Inr (Some v) \<longrightarrow> (\<exists>x. v = Json_text x)"
    by (simp add: demo_defs redis_get_def session_key_def address_key_def)
  have c1: "verifier_chain demo_cfg 6000 demo_claim demo_limited = None"
    by (simp add: verifier_chain_def check_defs demo_defs redis_get_def session_key_def
        address_key_def)
  have c2: "verifier_chain demo_cfg 6000 demo_stolen demo_limited
         = Some (demo_limited, Json_error 403 ''IP mismatch'')"
    by (simp add: verifier_chain_def check_defs demo_defs redis_get_def session_key_def
        address_key_def)
  have t1: "cookie_token demo_claim = Some demo_token"
    by (simp add: demo_defs)
  have t2: "stored_session 6000 demo_claim demo_limited = Some demo_session"
    by (simp add: stored_session_def demo_defs redis_get_def session_key_def address_key_def)
  from verifier_runs_checks_in_order [of demo_limited demo_claim 6000 demo_cfg] up wf1 c1 t1 t2
  have r1: "verifySessionToken demo_cfg 6000 demo_claim demo_limited
         = (demo_limited, Next (demo_token, demo_session))"
    by auto
  from verifier_runs_checks_in_order [of demo_limited demo_stolen 6000 demo_cfg] up wf2 c2
  have r2: "verifySessionToken demo_cfg 6000 demo_stolen demo_limited
         = (demo_limited, Respond (Json_error 403 ''IP mismatch''))"
    by blast
  have t3: "cookie_token demo_stolen = Some demo_token"
    by (simp add: demo_defs)
  from up t1 t3 demo_lookup c1 c2 r1 r2 show ?thesis by blast
qed

text \<open>
  Claim C5, as the code has it.  For a request whose session is found: a CSRF
  mismatch is answered with the generic \<^verbatim>\<open>Invalid request\<close> (403) and a line in the
  abuse log with reason \<^verbatim>\<open>CSRF\<close>; an origin mismatch (after the CSRF, dwell and IP
  checks pass) is answered with the same generic message and a log line with reason
  \<^verbatim>\<open>Origin Mismatch\<close> and both origins; an IP mismatch (after the CSRF and dwell
  checks pass) is answered with the message \<^verbatim>\<open>IP mismatch\<close> and writes no log line.
\<close>

theorem verifier_rejection_messages:
  "cookie_token req = Some token \<and> token \<noteq> []
   \<and> redis_get now (session_key token) s = Inr (Some (Json_text x))
   \<longrightarrow>
     (csrf_mismatch cfg req x \<longrightarrow>
        verifySessionToken cfg now req s =
          (s\<lparr>effects := effects s @ [csrf_log req]\<rparr>, Respond (Json_error 403 ''Invalid request'')))
   \<and> (\<not> csrf_mismatch cfg req x \<and> \<not> too_young cfg now x \<and> \<not> ip_mismatch req x
        \<and> origin_mismatch cfg req x \<longrightarrow>
        verifySessionToken cfg now req s =
          (s\<lparr>effects := effects s @ [origin_log cfg req x]\<rparr>,
           Respond (Json_error 403 ''Invalid request'')))
   \<and> (\<not> csrf_mismatch cfg req x \<and> \<not> too_young cfg now x \<and> ip_mismatch req x \<longrightarrow>
        verifySessionToken cfg now req s = (s, Respond (Json_error 403 ''IP mismatch'')))"
  by (simp add: verify_found)

theorem verifier_rejection_messages_witness:
  "cookie_token demo_forged = Some demo_token \<and> cookie_token demo_foreign = Some demo_token
   \<and> cookie_token demo_stolen = Some demo_token \<and> demo_token \<noteq> []
   \<and> redis_get 6000 (session_key demo_token) demo_limited = Inr (Some (Json_text demo_session))
   \<and> csrf_mismatch demo_cfg demo_forged demo_session
   \<and> \<not> csrf_mismatch demo_cfg demo_foreign demo_session
   \<and> \<not> too_young demo_cfg 6000 demo_session
   \<and> \<not> ip_mismatch demo_foreign demo_session
   \<and> origin_mismatch demo_cfg demo_foreign demo_session
   \<and> \<not> csrf_mismatch demo_cfg demo_stolen demo_session
   \<and> ip_mismatch demo_stolen demo_session
   \<and> verifySessionToken demo_cfg 6000 demo_forged demo_limited =
        (demo_limited\<lparr>effects := effects demo_limited @ [csrf_log demo_forged]\<rparr>,
         Respond (Json_error 403 ''Invalid request''))
   \<and> verifySessionToken demo_cfg 6000 demo_foreign demo_limited =
        (demo_limited\<lparr>effects := effects demo_limited
            @ [origin_log demo_cfg demo_foreign demo_session]\<rparr>,
         Respond (Json_error 403 ''Invalid request''))
   \<and> verifySessionToken demo_cfg 6000 demo_stolen demo_limited =
        (demo_limited, Respond (Json_error 403 ''IP mismatch''))"
proof -
  have c: "cookie_token demo_forged = Some demo_token \<and> cookie_token demo_foreign = Some demo_token
      \<and> cookie_token demo_stolen = Some demo_token \<and> demo_token \<noteq> []"
    by (simp add: demo_defs)
  have p: "csrf_mismatch demo_cfg demo_forged demo_session
     \<and> \<not> csrf_mismatch demo_cfg demo_foreign demo_session
     \<and> \<not> too_young demo_cfg 6000 demo_session
     \<and> \<not> ip_mismatch demo_foreign demo_session
     \<and> origin_mismatch demo_cfg demo_foreign demo_session
     \<and> \<not> csrf_mismatch demo_cfg demo_stolen demo_session
     \<and> ip_mismatch demo_stolen demo_session"
    by (simp add: csrf_mismatch_def too_young_def ip_mismatch_def origin_mismatch_def demo_defs)
  show ?thesis
    using c p demo_lookup
      verifier_rejection_messages [of demo_forged demo_token 6000 demo_limited demo_session demo_cfg]
      verifier_rejection_messages [of demo_foreign demo_token 6000 demo_limited demo_session demo_cfg]
      verifier_rejection_messages [of demo_stolen demo_token 6000 demo_limited demo_session demo_cfg]
    by blast
qed

text \<open>
  The claim as written does not hold for an IP mismatch: a claim replayed from
  another address gets the answer \<^verbatim>\<open>IP mismatch\<close>, which differs from the answer to
  a CSRF mismatch, and the trace gains no log line.
\<close>

theorem ip_mismatch_message_counterexample:
  "verifySessionToken demo_cfg 6000 demo_stolen demo_limited
     = (demo_limited, Respond (Json_error 403 ''IP mismatch''))
   \<and> verifySessionToken demo_cfg 6000 demo_forged demo_limited
     = (demo_limited\<lparr>effects := effects demo_limited @ [csrf_log demo_forged]\<rparr>,
        Respond (Json_error 403 ''Invalid request''))
   \<and> Json_error 403 ''IP mismatch'' \<noteq> Json_error 403 ''Invalid request''
   \<and> effects (fst (verifySessionToken demo_cfg 6000 demo_stolen demo_limited))
     = effects demo_limited"
  by (simp add: verifySessionToken_def logSecurityEvent_def csrf_log_def demo_defs redis_get_def
      session_key_def address_key_def)

text \<open>
  Claim C6, as the code has it.  For a claim whose session is found: when less time
  than \<^verbatim>\<open>MIN_SESSION_TIME_MS\<close> has passed since the session started, the verifier
  never lets the claim through.  Its answer is \<^verbatim>\<open>Session completed too quickly\<close>
  (400) when the CSRF check, which comes first, has let the request pass; a request
  that is too young and fails the CSRF check is answered by that check, with
  \<^verbatim>\<open>Invalid request\<close> (403) and a line in the security log.  When the elapsed time
  equals or exceeds the minimum, the dwell check passes and the too-quickly answer is
  not given.
\<close>

theorem dwell_time_boundary:
  "cookie_token req = Some token \<and> token \<noteq> []
   \<and> redis_get now (session_key token) s = Inr (Some (Json_text x))
   \<longrightarrow>
     (now - startedAt x < MIN_SESSION_TIME_MS cfg \<longrightarrow>
        (\<forall>tk y. snd (verifySessionToken cfg now req s) \<noteq> Next (tk, y)))
   \<and> (now - startedAt x < MIN_SESSION_TIME_MS cfg \<and> \<not> csrf_mismatch cfg req x \<longrightarrow>
        verifySessionToken cfg now req s =
          (s, Respond (Json_error 400 ''Session completed too quickly'')))
   \<and> (now - startedAt x < MIN_SESSION_TIME_MS cfg \<and> csrf_mismatch cfg req x \<longrightarrow>
        verifySessionToken cfg now req s =
          (s\<lparr>effects := effects s @ [csrf_log req]\<rparr>, Respond (Json_error 403 ''Invalid request'')))
   \<and> (MIN_SESSION_TIME_MS cfg \<le> now - startedAt x \<longrightarrow>
        check_dwell cfg now req s = None
        \<and> snd (verifySessionToken cfg now req s)
            \<noteq> Respond (Json_error 400 ''Session completed too quickly''))"
  by (auto simp: verify_found too_young_def check_dwell_def stored_session_def)

theorem dwell_time_boundary_witness:
  "cookie_token demo_claim = Some demo_token \<and> demo_token \<noteq> []
   \<and> cookie_token demo_forged = Some demo_token
   \<and> redis_get 4999 (session_key demo_token) demo_limited = Inr (Some (Json_text demo_session))
   \<and> redis_get 5000 (session_key demo_token) demo_limited = Inr (Some (Json_text demo_session))
   \<and> 4999 - startedAt demo_session < MIN_SESSION_TIME_MS demo_cfg
   \<and> MIN_SESSION_TIME_MS demo_cfg \<le> 5000 - startedAt demo_session
   \<and> \<not> csrf_mismatch demo_cfg demo_claim demo_session
   \<and> csrf_mismatch demo_cfg demo_forged demo_session
   \<and> verifySessionToken demo_cfg 4999 demo_claim demo_limited =
        (demo_limited, Respond (Json_error 400 ''Session completed too quickly''))
   \<and> snd (verifySessionToken demo_cfg 4999 demo_forged demo_limited) =
        Respond (Json_error 403 ''Invalid request'')
   \<and> check_dwell demo_cfg 5000 demo_claim demo_limited = None
   \<and> snd (verifySessionToken demo_cfg 5000 demo_claim demo_limited)
        \<noteq> Respond (Json_error 400 ''Session completed too quickly'')"
proof -
  have c: "cookie_token demo_claim = Some demo_token \<and> demo_token \<noteq> []
     \<and> cookie_token demo_forged = Some demo_token"
    by (simp add: demo_defs)
  have g: "redis_get 4999 (session_key demo_token) demo_limited = Inr (Some (Json_text demo_session))"
    "redis_get 5000 (session_key demo_token) demo_limited = Inr (Some (Json_text demo_session))"
    by (simp_all add: demo_defs redis_get_def session_key_def address_key_def)
  have p: "4999 - startedAt demo_session < MIN_SESSION_TIME_MS demo_cfg
     \<and> MIN_SESSION_TIME_MS demo_cfg \<le> 5000 - startedAt demo_session
     \<and> \<not> csrf_mismatch demo_cfg demo_claim demo_session
     \<and> csrf_mismatch demo_cfg demo_forged demo_session"
    by (simp add: csrf_mismatch_def demo_defs)
  have f: "verifySessionToken demo_cfg 4999 demo_forged demo_limited =
        (demo_limited\<lparr>effects := effects demo_limited @ [csrf_log demo_forged]\<rparr>,
         Respond (Json_error 403 ''Invalid request''))
     \<longrightarrow> snd (verifySessionToken demo_cfg 4999 demo_forged demo_limited) =
        Respond (Json_error 403 ''Invalid request'')"
    by simp
  show ?thesis
    using c g p f
      dwell_time_boundary [of demo_claim demo_token 4999 demo_limited demo_session demo_cfg]
      dwell_time_boundary [of demo_forged demo_token 4999 demo_limited demo_session demo_cfg]
      dwell_time_boundary [of demo_claim demo_token 5000 demo_limited demo_session demo_cfg]
    by blast
qed

text \<open>
  The claim as written gives the too-quickly answer to every claim made before the
  minimum time.  In the scenario a claim made after 4999 of the 5000 milliseconds,
  in production and without the CSRF header, is stopped by the CSRF check, which
  runs before the dwell check: it is answered with \<^verbatim>\<open>Invalid request\<close> (403), not
  with \<^verbatim>\<open>Session completed too quickly\<close> (400).
\<close>

theorem dwell_time_csrf_counterexample:
  "4999 - startedAt demo_session < MIN_SESSION_TIME_MS demo_cfg
   \<and> cookie_token demo_forged = Some demo_token
   \<and> redis_get 4999 (session_key demo_token) demo_limited = Inr (Some (Json_text demo_session))
   \<and> snd (verifySessionToken demo_cfg 4999 demo_forged demo_limited)
       = Respond (Json_error 403 ''Invalid request'')
   \<and> effects (fst (verifySessionToken demo_cfg 4999 demo_forged demo_limited))
       = effects demo_limited @ [csrf_log demo_forged]
   \<and> snd (verifySessionToken demo_cfg 4999 demo_forged demo_limited)
       \<noteq> Respond (Json_error 400 ''Session completed too quickly'')"
  by (simp add: verifySessionToken_def logSecurityEvent_def csrf_log_def demo_defs redis_get_def
      session_key_def address_key_def)

section \<open>The origin guard\<close>

lemma trim_empty: "trim t = [] \<longleftrightarrow> list_all is_space t"
proof
  assume "trim t = []"
  then have all: "\<forall>c \<in> set (dropWhile is_space t). is_space c"
    by (simp add: trim_def)
  have "dropWhile is_space t = []"
  proof (rule ccontr)
    assume ne: "dropWhile is_space t \<noteq> []"
    then have "\<not> is_space (hd (dropWhile is_space t))"
      by (rule hd_dropWhile)
    moreover from ne have "hd (dropWhile is_space t) \<in> set (dropWhile is_space t)"
      by simp
    ultimately show False using all by blast
  qed
  then show "list_all is_space t"
    by (simp add: list_all_iff)
next
  assume "list_all is_space t"
  then have d: "dropWhile is_space t = []"
    by (simp add: list_all_iff)
  show "trim t = []"
    unfolding trim_def d by simp
qed

lemma getAllowedOrigins_empty: "getAllowedOrigins fd = [] \<longleftrightarrow> no_entries fd"
proof (cases fd)
  case None
  then show ?thesis by (simp add: getAllowedOrigins_def no_entries_def)
next
  case (Some t)
  show ?thesis
  proof (cases "t = []")
    case True
    with Some show ?thesis by (simp add: getAllowedOrigins_def no_entries_def)
  next
    case False
    with Some show ?thesis
      by (auto simp: getAllowedOrigins_def no_entries_def filter_empty_conv trim_empty list_all_iff)
  qed
qed

lemma requireTrustedOrigin_frame:
  "requireTrustedOrigin cfg m req s = (s', r) \<Longrightarrow>
     redis s' = redis s \<and> redis_fault s' = redis_fault s \<and> cooldown s' = cooldown s
     \<and> rate s' = rate s"
  by (auto simp: requireTrustedOrigin_def logSecurityEvent_def Let_def
      split: if_splits option.splits)

lemma requireTrustedOrigin_Next: "requireTrustedOrigin cfg m req s = (s', Next u) \<Longrightarrow> s' = s"
  by (auto simp: requireTrustedOrigin_def logSecurityEvent_def Let_def
      split: if_splits option.splits)

text \<open>
  Claim C10, as the code has it.  The allow-list is empty exactly when
  \<^verbatim>\<open>FRONTEND_DOMAIN\<close> is unset or has no non-blank entry.  With an empty allow-list
  the guard answers every request that it examines (every request in production,
  every state-changing request otherwise) with \<^verbatim>\<open>Service temporarily unavailable\<close>
  (500), before it looks at the \<^verbatim>\<open>Origin\<close> header and without touching the state;
  so no claim reaches the rate limiter, the verifier or the handler, and in
  production no session can be started.  Outside production the guard lets
  \<^verbatim>\<open>GET /start-game\<close> through unexamined, and the route is then the handler alone.
\<close>

theorem empty_allow_list_fails_closed:
  "(no_entries (FRONTEND_DOMAIN cfg) \<longleftrightarrow> allowedOrigins cfg = [])
   \<and> (allowedOrigins cfg = [] \<longrightarrow>
        (production cfg \<or> method \<notin> set [''GET'', ''HEAD'', ''OPTIONS''] \<longrightarrow>
           requireTrustedOrigin cfg method req s =
             (s, Respond (Json_error 500 ''Service temporarily unavailable'')))
        \<and> claim_route cfg w now req s = (s, Json_error 500 ''Service temporarily unavailable'')
        \<and> (production cfg \<longrightarrow>
             start_game_route cfg now rnd req s =
               (s, Json_error 500 ''Service temporarily unavailable''))
        \<and> (\<not> production cfg \<longrightarrow>
             start_game_route cfg now rnd req s = start_game_handler cfg now rnd req s))"
  by (auto simp: allowedOrigins_def getAllowedOrigins_empty requireTrustedOrigin_def
      claim_route_def start_game_route_def)

theorem empty_allow_list_fails_closed_witness:
  "allowedOrigins demo_blank_cfg = [] \<and> production demo_blank_cfg
   \<and> allowedOrigins demo_dev_cfg = [] \<and> \<not> production demo_dev_cfg
   \<and> ''POST'' \<notin> set [''GET'', ''HEAD'', ''OPTIONS'']
   \<and> requireTrustedOrigin demo_dev_cfg ''POST'' demo_claim demo_started =
        (demo_started, Respond (Json_error 500 ''Service temporarily unavailable''))
   \<and> claim_route demo_dev_cfg demo_wallet 6000 demo_claim demo_started =
        (demo_started, Json_error 500 ''Service temporarily unavailable'')
   \<and> start_game_route demo_blank_cfg 0 (demo_token, demo_csrf) demo_start demo_empty =
        (demo_empty, Json_error 500 ''Service temporarily unavailable'')
   \<and> start_game_route demo_dev_cfg 0 (demo_token, demo_csrf) demo_start demo_empty =
        start_game_handler demo_dev_cfg 0 (demo_token, demo_csrf) demo_start demo_empty"
proof -
  have n1: "no_entries (FRONTEND_DOMAIN demo_blank_cfg)"
    by (simp add: no_entries_def is_space_def demo_defs)
  have n2: "no_entries (FRONTEND_DOMAIN demo_dev_cfg)"
    by (simp add: no_entries_def demo_defs)
  have p: "production demo_blank_cfg \<and> \<not> production demo_dev_cfg
      \<and> ''POST'' \<notin> set [''GET'', ''HEAD'', ''OPTIONS'']"
    by (simp add: demo_defs)
  show ?thesis
    using n1 n2 p
      empty_allow_list_fails_closed [of demo_blank_cfg "''POST''" demo_claim demo_started
        demo_wallet 6000 "(demo_token, demo_csrf)"]
      empty_allow_list_fails_closed [of demo_dev_cfg "''POST''" demo_claim demo_started
        demo_wallet 6000 "(demo_token, demo_csrf)"]
      empty_allow_list_fails_closed [of demo_blank_cfg "''POST''" demo_start demo_empty
        demo_wallet 0 "(demo_token, demo_csrf)"]
      empty_allow_list_fails_closed [of demo_dev_cfg "''POST''" demo_start demo_empty
        demo_wallet 0 "(demo_token, demo_csrf)"]
    by blast
qed

text \<open>
  The claim as written does not hold for session starts outside production: with no
  \<^verbatim>\<open>FRONTEND_DOMAIN\<close> at all, a development deployment starts a session.
\<close>

theorem empty_allow_list_counterexample:
  "allowedOrigins demo_dev_cfg = []
   \<and> snd (start_game_route demo_dev_cfg 0 (demo_token, demo_csrf) demo_start demo_empty)
       = Session_started demo_token demo_csrf
   \<and> redis_get 0 (session_key demo_token)
        (fst (start_game_route demo_dev_cfg 0 (demo_token, demo_csrf) demo_start demo_empty))
       = Inr (Some (Json_text demo_session))"
  by (simp add: start_game_route_def requireTrustedOrigin_def allowedOrigins_def getAllowedOrigins_def
      start_game_handler_def startsWith_def createSession_def
      deleteSessionsForAddress_def promise_all2_def redis_get_def redis_setEx_def redis_del_def
      demo_defs session_key_def address_key_def Let_def)

section \<open>Starting a game\<close>

lemma start_game_handler_malformed:
  "malformed_address (query_address req) \<Longrightarrow>
     start_game_handler cfg now rnd req s = (s, Json_error 400 ''Invalid CCX address'')"
  by (auto simp: malformed_address_def start_game_handler_def startsWith_def
      split: query_param.splits)

text \<open>
  For a parameter that is missing or a string the handler does what it is meant to:
  a malformed address is answered with \<^verbatim>\<open>Invalid CCX address\<close> (400) in an unchanged
  state, and through the whole route such a request leaves Redis as it was, adds no
  write to the trace and never starts a session; a well-formed address goes on to
  \<open>createSession\<close>, whose outcome decides the answer.
\<close>

lemma start_game_text_address:
  "(malformed_address (query_address req) \<longrightarrow>
      start_game_handler cfg now rnd req s = (s, Json_error 400 ''Invalid CCX address'')
      \<and> redis (fst (start_game_route cfg now rnd req s)) = redis s
      \<and> (\<forall>k n v. Store_set k n v \<notin> set (effects (fst (start_game_route cfg now rnd req s)))
                    \<or> Store_set k n v \<in> set (effects s))
      \<and> (\<forall>t c. snd (start_game_route cfg now rnd req s) \<noteq> Session_started t c))
   \<and> (\<forall>a. query_address req = Text a \<and> startsWith a ''ccx7'' \<and> length a = 98 \<longrightarrow>
        start_game_handler cfg now rnd req s =
          (case createSession cfg now rnd (clientIP req) a
                  (if truthy (origin_header req) then origin_header req else None) s of
             (s1, Inl e) \<Rightarrow> (s1, Json_error 500 ''Failed to create session'')
           | (s1, Inr (token, csrf)) \<Rightarrow> (s1, Session_started token csrf)))"
proof (intro conjI impI allI)
  assume m: "malformed_address (query_address req)"
  show "start_game_handler cfg now rnd req s = (s, Json_error 400 ''Invalid CCX address'')"
    using m by (rule start_game_handler_malformed)
  obtain s1 r where g: "requireTrustedOrigin cfg ''GET'' req s = (s1, r)"
    by (cases "requireTrustedOrigin cfg ''GET'' req s")
  have fr: "redis s1 = redis s" using g requireTrustedOrigin_frame by blast
  have route: "start_game_route cfg now rnd req s =
      (case r of Respond a \<Rightarrow> (s1, a) | Next u \<Rightarrow> (s1, Json_error 400 ''Invalid CCX address''))"
    using g m by (simp add: start_game_route_def start_game_handler_malformed split: step.splits)
  show "redis (fst (start_game_route cfg now rnd req s)) = redis s"
    using route fr by (simp split: step.splits)
  show "\<And>t c. snd (start_game_route cfg now rnd req s) \<noteq> Session_started t c"
    using route g
    by (auto simp: requireTrustedOrigin_def logSecurityEvent_def Let_def
        split: step.splits if_splits option.splits)
  show "\<And>k n v. Store_set k n v \<notin> set (effects (fst (start_game_route cfg now rnd req s)))
                    \<or> Store_set k n v \<in> set (effects s)"
    using route g
    by (auto simp: requireTrustedOrigin_def logSecurityEvent_def Let_def
        split: step.splits if_splits option.splits)
next
  fix a
  assume "query_address req = Text a \<and> startsWith a ''ccx7'' \<and> length a = 98"
  then show "start_game_handler cfg now rnd req s =
          (case createSession cfg now rnd (clientIP req) a
                  (if truthy (origin_header req) then origin_header req else None) s of
             (s1, Inl e) \<Rightarrow> (s1, Json_error 500 ''Failed to create session'')
           | (s1, Inr (token, csrf)) \<Rightarrow> (s1, Session_started token csrf))"
    by (auto simp: start_game_handler_def)
qed

text \<open>
  Claim C8 says that every address that is absent, wrongly prefixed or of the wrong
  length is rejected with an invalid-address error.  The code breaks this for an
  address parameter that is not a string.  With the parameter repeated in the URL
  (\<^verbatim>\<open>?address=abc&address=def\<close>), \<^verbatim>\<open>req.query.address\<close> is an array: it passes the first check, the call of
  \<^verbatim>\<open>startsWith\<close> throws before the \<^verbatim>\<open>try\<close> is entered, and the request gets no
  answer at all instead of \<^verbatim>\<open>Invalid CCX address\<close> (400).  The origin guard lets the
  request through, so the whole route ends the same way; the store is untouched.
\<close>

theorem start_game_repeated_address_uncaught:
  "query_address demo_repeated_start = Repeated [''abc'', ''def'']
   \<and> start_game_handler demo_cfg 0 (demo_token, demo_csrf) demo_repeated_start demo_empty
       = (demo_empty, Uncaught ''address.startsWith is not a function'')
   \<and> start_game_route demo_cfg 0 (demo_token, demo_csrf) demo_repeated_start demo_empty
       = (demo_empty, Uncaught ''address.startsWith is not a function'')
   \<and> Uncaught ''address.startsWith is not a function'' \<noteq> Json_error 400 ''Invalid CCX address''"
  by (simp add: start_game_route_def requireTrustedOrigin_def allowedOrigins_def
      getAllowedOrigins_def trim_def is_space_def start_game_handler_def demo_defs)

section \<open>The claim route\<close>

lemma requireTrustedOrigin_Respond:
  "requireTrustedOrigin cfg m req s = (s', Respond r) \<Longrightarrow>
     r \<in> {Json_error 500 ''Service temporarily unavailable'', Json_error 400 ''Invalid request'',
          Json_error 403 ''Invalid request''}"
  by (auto simp: requireTrustedOrigin_def logSecurityEvent_def Let_def
      split: if_splits option.splits)

lemma claimLimiter_frame:
  "claimLimiter cfg now req s = (s', r) \<Longrightarrow>
     redis s' = redis s \<and> redis_fault s' = redis_fault s \<and> cooldown s' = cooldown s"
  by (auto simp: claimLimiter_def logSecurityEvent_def Let_def
      split: if_splits option.splits prod.splits)

lemma claimLimiter_Next:
  "claimLimiter cfg now req s = (s', Next u) \<Longrightarrow>
     effects s' = effects s @ [Rate_hit (clientIP req)]"
  by (auto simp: claimLimiter_def logSecurityEvent_def Let_def
      split: if_splits option.splits prod.splits)

lemma claimLimiter_Respond: "claimLimiter cfg now req s = (s', Respond r) \<Longrightarrow> r = Rate_limited"
  by (auto simp: claimLimiter_def logSecurityEvent_def Let_def
      split: if_splits option.splits prod.splits)

lemma checkCooldown_frame:
  "checkCooldown cfg now req s = (s', r) \<Longrightarrow>
     redis s' = redis s \<and> redis_fault s' = redis_fault s \<and> cooldown s' = cooldown s"
  by (auto simp: checkCooldown_def logSecurityEvent_def split: if_splits)

lemma checkCooldown_Next: "checkCooldown cfg now req s = (s', Next u) \<Longrightarrow> s' = s"
  by (auto simp: checkCooldown_def logSecurityEvent_def split: if_splits)

lemma verifySessionToken_frame:
  "verifySessionToken cfg now req s = (s', r) \<Longrightarrow>
     redis s' = redis s \<and> redis_fault s' = redis_fault s \<and> cooldown s' = cooldown s"
  by (auto simp: verifySessionToken_def logSecurityEvent_def
      split: if_splits option.splits sum.splits)

lemma verifySessionToken_Next:
  "verifySessionToken cfg now req s = (s', Next (token, x)) \<Longrightarrow>
     s' = s \<and> cookie_token req = Some token \<and> token \<noteq> []
     \<and> redis_get now (session_key token) s = Inr (Some (Json_text x))"
  by (auto simp: verifySessionToken_def logSecurityEvent_def bind_JSON_parse
      split: if_splits option.splits sum.splits)

lemma verifySessionToken_absent:
  assumes "cookie_token req = Some token" "token \<noteq> []" "redis_fault s = None"
    and "redis s (session_key token) = None"
  shows "verifySessionToken cfg now req s
           = (s, Respond (Json_error 403 ''Invalid or expired session token''))"
  using assms by (simp add: verifySessionToken_def redis_get_def)

lemma redis_get_frame:
  "redis s' = redis s \<Longrightarrow> redis_fault s' = redis_fault s \<Longrightarrow> redis_get now k s' = redis_get now k s"
  by (simp add: redis_get_def cong: option.case_cong)

lemma redis_get_Inr: "redis_get now k s = Inr v \<Longrightarrow> redis_fault s = None"
  by (simp add: redis_get_def split: option.splits)

lemma deleteSession_found:
  assumes "redis_get now (session_key token) s = Inr (Some (Json_text x))"
  shows "deleteSession now token s =
          (s\<lparr>redis := (redis s)(session_key token := None, address_key (address x) := None),
             effects := effects s @ [Store_del (session_key token),
                                     Store_del (address_key (address x))]\<rparr>, None)"
  using assms redis_get_Inr [OF assms]
  by (simp add: deleteSession_def promise_all2_def redis_del_def)

lemma claim_handler_found:
  assumes "redis_get now (session_key token) s = Inr (Some (Json_text x))"
  shows "claim_handler cfg w now req token x s =
     (if body_address req \<noteq> Some (address x) \<or> address x = []
         \<or> (case body_score req of None \<Rightarrow> True | Some sc \<Rightarrow> sc = 0 \<or> sc < MIN_SCORE cfg)
      then (s\<lparr>effects := effects s @ [Log_write ''ABUSE''
                 [(''IP'', Some (clientIP req)), (''ADDR'', body_address req),
                  (''REASON'', Some ''Validation'')]]\<rparr>, Json_error 400 ''Invalid request'')
      else case getBalance w of
             Inl m \<Rightarrow> (s, Json_error 500 (payment_message m))
           | Inr b \<Rightarrow>
               if b < FAUCET_MIN_BALANCE cfg then (s, Json_error 503 ''Not enough funds in Faucet'')
               else case sendTransaction w of
                      Inl m \<Rightarrow>
                        (s\<lparr>effects := effects s @ [Wallet_send (address x) (FAUCET_AMOUNT cfg)]\<rparr>,
                         Json_error 500 (payment_message m))
                    | Inr h \<Rightarrow>
                        (s\<lparr>redis := (redis s)(session_key token := None,
                                                 address_key (address x) := None),
                           effects := effects s @ [Wallet_send (address x) (FAUCET_AMOUNT cfg),
                                                   Store_del (session_key token),
                                                   Store_del (address_key (address x))]\<rparr>,
                         Claim_paid h (of_int (FAUCET_AMOUNT cfg) / 1000000)))"
proof -
  let ?s1 = "s\<lparr>effects := effects s @ [Wallet_send (address x) (FAUCET_AMOUNT cfg)]\<rparr>"
  have g: "redis_get now (session_key token) ?s1 = Inr (Some (Json_text x))"
    using assms redis_get_frame [of ?s1 s now "session_key token"] by simp
  have d: "deleteSession now token ?s1 =
          (s\<lparr>redis := (redis s)(session_key token := None, address_key (address x) := None),
             effects := effects s @ [Wallet_send (address x) (FAUCET_AMOUNT cfg),
                                     Store_del (session_key token),
                                     Store_del (address_key (address x))]\<rparr>, None)"
    using deleteSession_found [OF g] by simp
  show ?thesis
  proof (cases "body_address req")
    case None
    then show ?thesis by (simp add: claim_handler_def logSecurityEvent_def Let_def)
  next
    case (Some a)
    show ?thesis
    proof (cases "a = address x")
      case False
      with Some show ?thesis by (simp add: claim_handler_def logSecurityEvent_def Let_def)
    next
      case True
      with Some d show ?thesis
        by (simp add: claim_handler_def logSecurityEvent_def Let_def
            split: option.splits sum.splits)
    qed
  qed
qed

lemma commitCooldown_frame:
  "redis (commitCooldown cfg now req s) = redis s"
  "redis_fault (commitCooldown cfg now req s) = redis_fault s"
  "effects (commitCooldown cfg now req s) = effects s"
  by (simp_all add: commitCooldown_def)

lemma setCooldownOnSuccess_unpaid:
  "handler s = (s1, r) \<Longrightarrow> \<forall>h amt. r \<noteq> Claim_paid h amt \<Longrightarrow>
     setCooldownOnSuccess cfg now req handler s = (s1, r)"
  by (cases r) (simp_all add: setCooldownOnSuccess_def)

text \<open>Every run of the claim route either stops in a middleware or enters the handler.\<close>

lemma claim_route_cases:
  assumes "claim_route cfg w now req s = (s', r)"
  obtains
    (rejected) "redis s' = redis s" "cooldown s' = cooldown s" "redis_fault s' = redis_fault s"
      "\<forall>h amt. r \<noteq> Claim_paid h amt"
  | (handled) s2 token x where
      "requireTrustedOrigin cfg ''POST'' req s = (s, Next ())"
      "claimLimiter cfg now req s = (s2, Next ())"
      "verifySessionToken cfg now req s2 = (s2, Next (token, x))"
      "checkCooldown cfg now req s2 = (s2, Next ())"
      "setCooldownOnSuccess cfg now req (claim_handler cfg w now req token x) s2 = (s', r)"
proof -
  obtain s1 r1 where g: "requireTrustedOrigin cfg ''POST'' req s = (s1, r1)"
    by (cases "requireTrustedOrigin cfg ''POST'' req s")
  note gf = requireTrustedOrigin_frame [OF g]
  show thesis
  proof (cases r1)
    case (Respond a)
    with assms g have "s' = s1" "r = a"
      by (simp_all add: claim_route_def)
    moreover from g Respond have "\<forall>h amt. a \<noteq> Claim_paid h amt"
      using requireTrustedOrigin_Respond by fastforce
    ultimately show thesis using gf rejected by simp
  next
    case (Next u)
    with g have s1: "s1 = s" using requireTrustedOrigin_Next by blast
    obtain s2 r2 where l: "claimLimiter cfg now req s = (s2, r2)"
      by (cases "claimLimiter cfg now req s")
    note lf = claimLimiter_frame [OF l]
    show thesis
    proof (cases r2)
      case (Respond a)
      with assms g Next s1 l have "s' = s2" "r = a"
        by (simp_all add: claim_route_def)
      moreover from l Respond have "a = Rate_limited"
        using claimLimiter_Respond by blast
      ultimately show thesis using lf rejected by simp
    next
      case Next2: (Next u2)
      obtain s3 r3 where v: "verifySessionToken cfg now req s2 = (s3, r3)"
        by (cases "verifySessionToken cfg now req s2")
      note vf = verifySessionToken_frame [OF v]
      show thesis
      proof (cases r3)
        case (Respond a)
        with assms g Next s1 l Next2 v have "s' = s3" "r = a"
          by (simp_all add: claim_route_def)
        moreover from v Respond have "\<forall>h amt. a \<noteq> Claim_paid h amt"
          by (auto simp: verifySessionToken_def logSecurityEvent_def
              split: if_splits option.splits sum.splits)
        ultimately show thesis using lf vf rejected by simp
      next
        case Next3: (Next tx)
        obtain token x where tx: "tx = (token, x)" by (cases tx)
        with v Next3 have s3: "s3 = s2" using verifySessionToken_Next by blast
        obtain s4 r4 where c: "checkCooldown cfg now req s2 = (s4, r4)"
          by (cases "checkCooldown cfg now req s2")
        note cf = checkCooldown_frame [OF c]
        show thesis
        proof (cases r4)
          case (Respond a)
          with assms g Next s1 l Next2 v Next3 tx s3 c have "s' = s4" "r = a"
            by (simp_all add: claim_route_def)
          moreover from c Respond have "a = Cooldown_active"
            by (auto simp: checkCooldown_def split: if_splits)
          ultimately show thesis using lf cf rejected by simp
        next
          case Next4: (Next u4)
          with c have s4: "s4 = s2" using checkCooldown_Next by blast
          from assms g Next s1 l Next2 v Next3 tx s3 c Next4 s4
          have "setCooldownOnSuccess cfg now req (claim_handler cfg w now req token x) s2 = (s', r)"
            by (simp add: claim_route_def)
          with g Next s1 l Next2 v Next3 tx s3 c Next4 s4 show thesis
            using handled by simp
        qed
      qed
    qed
  qed
qed

text \<open>The state in which a paid claim leaves the world.\<close>

lemma claim_route_paid:
  assumes "claim_route cfg w now req s = (s', Claim_paid h amt)"
  shows "\<exists>token x.
           cookie_token req = Some token \<and> token \<noteq> []
         \<and> redis_get now (session_key token) s = Inr (Some (Json_text x))
         \<and> body_address req = Some (address x)
         \<and> sendTransaction w = Inr h
         \<and> amt = of_int (FAUCET_AMOUNT cfg) / 1000000
         \<and> redis_fault s' = None
         \<and> redis s' = (redis s)(session_key token := None, address_key (address x) := None)
         \<and> effects s' =
              effects s @ [Rate_hit (clientIP req),
                           Wallet_send (address x) (FAUCET_AMOUNT cfg),
                           Store_del (session_key token),
                           Store_del (address_key (address x))]"
  using assms
proof (cases rule: claim_route_cases)
  case rejected
  then show ?thesis by simp
next
  case (handled s2 token x)
  from verifySessionToken_Next [OF handled(3)]
  have tk: "cookie_token req = Some token" "token \<noteq> []"
    and g2: "redis_get now (session_key token) s2 = Inr (Some (Json_text x))"
    by simp_all
  note lf = claimLimiter_frame [OF handled(2)]
  have g: "redis_get now (session_key token) s = Inr (Some (Json_text x))"
    using g2 lf redis_get_frame [of s2 s now "session_key token"] by simp
  have up: "redis_fault s2 = None"
    using g2 by (rule redis_get_Inr)
  obtain s5 r5 where hd: "claim_handler cfg w now req token x s2 = (s5, r5)"
    by (cases "claim_handler cfg w now req token x s2")
  have r5: "r5 = Claim_paid h amt \<and> s' = commitCooldown cfg now req s5"
    using handled(5) hd by (cases r5) (simp_all add: setCooldownOnSuccess_def)
  then have s': "s' = commitCooldown cfg now req s5" ..
  from hd r5 have paid: "claim_handler cfg w now req token x s2 = (s5, Claim_paid h amt)"
    by simp
  have facts: "body_address req = Some (address x) \<and> sendTransaction w = Inr h
      \<and> amt = of_int (FAUCET_AMOUNT cfg) / 1000000
      \<and> redis s5 = (redis s2)(session_key token := None, address_key (address x) := None)
      \<and> redis_fault s5 = redis_fault s2
      \<and> effects s5 = effects s2 @ [Wallet_send (address x) (FAUCET_AMOUNT cfg),
                                    Store_del (session_key token),
                                    Store_del (address_key (address x))]"
    using paid unfolding claim_handler_found [OF g2]
    by (auto split: if_splits sum.splits)
  have e2: "effects s2 = effects s @ [Rate_hit (clientIP req)]"
    using handled(2) by (rule claimLimiter_Next)
  show ?thesis
    using tk g facts up lf e2 s'
    by (simp add: commitCooldown_frame)
qed

lemma claim_route_unpaid:
  assumes "claim_route cfg w now req s = (s', r)" and "\<forall>h amt. r \<noteq> Claim_paid h amt"
  shows "redis s' = redis s \<and> cooldown s' = cooldown s"
  using assms(1)
proof (cases rule: claim_route_cases)
  case rejected
  then show ?thesis by simp
next
  case (handled s2 token x)
  from verifySessionToken_Next [OF handled(3)]
  have g2: "redis_get now (session_key token) s2 = Inr (Some (Json_text x))"
    by simp
  note lf = claimLimiter_frame [OF handled(2)]
  obtain s5 r5 where hd: "claim_handler cfg w now req token x s2 = (s5, r5)"
    by (cases "claim_handler cfg w now req token x s2")
  have np: "\<forall>h amt. r5 \<noteq> Claim_paid h amt"
  proof (intro allI notI)
    fix h amt
    assume "r5 = Claim_paid h amt"
    with hd handled(5) have "r = Claim_paid h amt"
      by (simp add: setCooldownOnSuccess_def)
    with assms(2) show False by blast
  qed
  from setCooldownOnSuccess_unpaid [of "claim_handler cfg w now req token x" s2 s5 r5 cfg now req]
    hd np handled(5)
  have r5: "r5 = r" and s': "s' = s5"
    by simp_all
  have "redis s5 = redis s2 \<and> cooldown s5 = cooldown s2"
    using hd r5 assms(2) unfolding claim_handler_found [OF g2]
    by (auto split: if_splits sum.splits)
  then show ?thesis using lf s' by simp
qed


lemma second_claim_rejected:
  assumes "cookie_token req' = Some token" "token \<noteq> []" "redis_fault s' = None"
    and "redis s' (session_key token) = None"
  shows "snd (claim_route cfg' w' now' req' s')
           \<in> {Json_error 500 ''Service temporarily unavailable'',
               Json_error 400 ''Invalid request'', Json_error 403 ''Invalid request'',
               Rate_limited, Json_error 403 ''Invalid or expired session token''}"
proof -
  obtain s1 r1 where g: "requireTrustedOrigin cfg' ''POST'' req' s' = (s1, r1)"
    by (cases "requireTrustedOrigin cfg' ''POST'' req' s'")
  show ?thesis
  proof (cases r1)
    case (Respond a)
    with g show ?thesis
      using requireTrustedOrigin_Respond [of cfg' "''POST''" req' s' s1 a]
      by (auto simp: claim_route_def)
  next
    case (Next u)
    with g have s1: "s1 = s'" using requireTrustedOrigin_Next by blast
    obtain s2 r2 where l: "claimLimiter cfg' now' req' s' = (s2, r2)"
      by (cases "claimLimiter cfg' now' req' s'")
    note lf = claimLimiter_frame [OF l]
    show ?thesis
    proof (cases r2)
      case (Respond a)
      with g Next s1 l show ?thesis
        using claimLimiter_Respond [of cfg' now' req' s' s2 a]
        by (simp add: claim_route_def)
    next
      case Next2: (Next u2)
      have "verifySessionToken cfg' now' req' s2
              = (s2, Respond (Json_error 403 ''Invalid or expired session token''))"
        using assms lf by (intro verifySessionToken_absent) simp_all
      with g Next s1 l Next2 show ?thesis
        by (simp add: claim_route_def)
    qed
  qed
qed






lemmas route_defs =
  claim_route_def requireTrustedOrigin_def allowedOrigins_def getAllowedOrigins_def trim_def
  is_space_def claimLimiter_def verifySessionToken_def checkCooldown_def on_cooldown_def
  setCooldownOnSuccess_def commitCooldown_def claim_handler_def deleteSession_def
  logSecurityEvent_def redis_get_def redis_del_def session_key_def address_key_def
  payment_message_def promise_all2_def

lemma demo_paid:
  "snd (claim_route demo_cfg demo_wallet 6000 demo_claim demo_started)
     = Claim_paid ''abcdef1234'' (1123456 / 1000000)"
  by (simp add: route_defs demo_defs)

lemma demo_trace:
  "effects (fst (claim_route demo_cfg demo_wallet 6000 demo_claim demo_started))
     = effects demo_started
       @ [Rate_hit ''1.2.3.4'', Wallet_send demo_address 1123456,
          Store_del (session_key demo_token), Store_del (address_key demo_address)]"
  by (simp add: route_defs demo_defs)

lemma demo_unpaid:
  "snd (claim_route demo_cfg demo_broken_wallet 6000 demo_claim demo_started)
     = Json_error 500 ''Wallet RPC timeout''"
  by (simp add: route_defs demo_defs)

section \<open>A successful claim\<close>



text \<open>
  Claim C2.  A session token is single-use.  Whenever the claim route answers with
  success, the request carried a token whose session record was in Redis, and in the
  resulting state that record and the index entry of its address are gone.  Any later
  request that presents the same token is therefore rejected by the verifier at the
  existence check with \<^verbatim>\<open>Invalid or expired session token\<close> (403), whatever else it
  carries; through the whole route a second claim with that token gets this answer
  unless the origin guard or the rate limiter, which run first, reject it.
\<close>

theorem consumed_token_is_rejected:
  "claim_route cfg w now req s = (s', Claim_paid h amt) \<longrightarrow>
     (\<exists>token x.
        cookie_token req = Some token
      \<and> redis_get now (session_key token) s = Inr (Some (Json_text x))
      \<and> redis s' (session_key token) = None
      \<and> redis s' (address_key (address x)) = None
      \<and> (\<forall>cfg' now' req'. cookie_token req' = Some token \<longrightarrow>
            verifySessionToken cfg' now' req' s'
              = (s', Respond (Json_error 403 ''Invalid or expired session token'')))
      \<and> (\<forall>cfg' w' now' req'. cookie_token req' = Some token \<longrightarrow>
            snd (claim_route cfg' w' now' req' s')
              \<in> {Json_error 500 ''Service temporarily unavailable'',
                  Json_error 400 ''Invalid request'', Json_error 403 ''Invalid request'',
                  Rate_limited, Json_error 403 ''Invalid or expired session token''}))"
proof
  assume a: "claim_route cfg w now req s = (s', Claim_paid h amt)"
  from claim_route_paid [OF a] obtain token x where
    tk: "cookie_token req = Some token" "token \<noteq> []"
    and g: "redis_get now (session_key token) s = Inr (Some (Json_text x))"
    and up: "redis_fault s' = None"
    and rd: "redis s' = (redis s)(session_key token := None, address_key (address x) := None)"
    by blast
  have k1: "redis s' (session_key token) = None"
    and k2: "redis s' (address_key (address x)) = None"
    using rd by simp_all
  have v: "\<forall>cfg' now' req'. cookie_token req' = Some token \<longrightarrow>
            verifySessionToken cfg' now' req' s'
              = (s', Respond (Json_error 403 ''Invalid or expired session token''))"
    using tk(2) up k1 by (simp add: verifySessionToken_absent)
  have r: "\<forall>cfg' w' now' req'. cookie_token req' = Some token \<longrightarrow>
            snd (claim_route cfg' w' now' req' s')
              \<in> {Json_error 500 ''Service temporarily unavailable'',
                  Json_error 400 ''Invalid request'', Json_error 403 ''Invalid request'',
                  Rate_limited, Json_error 403 ''Invalid or expired session token''}"
    using tk(2) up k1 second_claim_rejected by blast
  show "\<exists>token x.
        cookie_token req = Some token
      \<and> redis_get now (session_key token) s = Inr (Some (Json_text x))
      \<and> redis s' (session_key token) = None
      \<and> redis s' (address_key (address x)) = None
      \<and> (\<forall>cfg' now' req'. cookie_token req' = Some token \<longrightarrow>
            verifySessionToken cfg' now' req' s'
              = (s', Respond (Json_error 403 ''Invalid or expired session token'')))
      \<and> (\<forall>cfg' w' now' req'. cookie_token req' = Some token \<longrightarrow>
            snd (claim_route cfg' w' now' req' s')
              \<in> {Json_error 500 ''Service temporarily unavailable'',
                  Json_error 400 ''Invalid request'', Json_error 403 ''Invalid request'',
                  Rate_limited, Json_error 403 ''Invalid or expired session token''})"
    using tk(1) g k1 k2 v r by blast
qed

theorem consumed_token_is_rejected_witness:
  "claim_route demo_cfg demo_wallet 6000 demo_claim demo_started
     = (fst (claim_route demo_cfg demo_wallet 6000 demo_claim demo_started),
        Claim_paid ''abcdef1234'' (1123456 / 1000000))
   \<and> cookie_token demo_claim = Some demo_token
   \<and> verifySessionToken demo_cfg 7000 demo_claim
         (fst (claim_route demo_cfg demo_wallet 6000 demo_claim demo_started))
       = (fst (claim_route demo_cfg demo_wallet 6000 demo_claim demo_started),
          Respond (Json_error 403 ''Invalid or expired session token''))"
proof -
  have run: "claim_route demo_cfg demo_wallet 6000 demo_claim demo_started
     = (fst (claim_route demo_cfg demo_wallet 6000 demo_claim demo_started),
        Claim_paid ''abcdef1234'' (1123456 / 1000000))"
    using demo_paid by (simp add: prod_eq_iff)
  have ck: "cookie_token demo_claim = Some demo_token"
    by (simp add: demo_defs)
  from consumed_token_is_rejected
         [of demo_cfg demo_wallet 6000 demo_claim demo_started
             "fst (claim_route demo_cfg demo_wallet 6000 demo_claim demo_started)"
             "''abcdef1234''" "1123456 / 1000000"] run
  obtain token where "cookie_token demo_claim = Some token"
    and "\<forall>cfg' now' req'. cookie_token req' = Some token \<longrightarrow>
            verifySessionToken cfg' now' req'
               (fst (claim_route demo_cfg demo_wallet 6000 demo_claim demo_started))
              = (fst (claim_route demo_cfg demo_wallet 6000 demo_claim demo_started),
                 Respond (Json_error 403 ''Invalid or expired session token''))"
    by blast
  with ck run show ?thesis by auto
qed

section \<open>Order of the side effects of a claim\<close>




section \<open>The address index\<close>

lemma store_ok_later: "store_ok now s \<Longrightarrow> now \<le> now' \<Longrightarrow> store_ok now' s"
  unfolding store_ok_def by (meson less_le_trans le_less_trans order.strict_trans1)

lemma store_ok_sessionD:
  assumes "store_ok now s" "redis s (session_key t) = Some (e, Json_text x)" "now < e"
  shows "is_hex_token t \<and> redis s (address_key (address x)) = Some (e, Plain t)"
proof -
  from assms obtain t' x' where
    "session_key t = session_key t'" "is_hex_token t'" "Json_text x = Json_text x'"
    "redis s (address_key (address x')) = Some (e, Plain t')"
    unfolding store_ok_def by blast
  then show ?thesis by simp
qed

lemma store_ok_indexD:
  assumes "store_ok now s" "redis s (address_key a) = Some (e, v)" "now < e"
  shows "\<exists>t. is_hex_token t \<and> v = Plain t"
proof -
  from assms have
    "(\<exists>t x. address_key a = session_key t \<and> is_hex_token t \<and> v = Json_text x
               \<and> redis s (address_key (address x)) = Some (e, Plain t))
        \<or> (\<exists>a' t. address_key a = address_key a' \<and> is_hex_token t \<and> v = Plain t)"
    unfolding store_ok_def by blast
  then show ?thesis by auto
qed

lemma createSession_redis:
  assumes "redis_fault s = None" "1000 \<le> SESSION_TTL_MS cfg"
  shows "\<exists>s'. createSession cfg now (token, csrf) ip0 a origin0 s = (s', Inr (token, csrf))
     \<and> redis_fault s' = None
     \<and> redis s' =
         (case redis_get now (address_key a) s of
            Inr (Some v) \<Rightarrow>
              if raw_truthy (Some v)
              then (redis s)(session_key (text_of v) := None, address_key a := None)
              else redis s
          | _ \<Rightarrow> redis s)
         (session_key token \<mapsto> (now + 1000 * (SESSION_TTL_MS cfg div 1000),
              Json_text \<lparr>ip = ip0, address = a, origin = origin0, startedAt = now,
                         csrfToken = csrf\<rparr>),
          address_key a \<mapsto> (now + 1000 * (SESSION_TTL_MS cfg div 1000), Plain token))"
proof -
  from assms(2) have ttl: "\<not> SESSION_TTL_MS cfg div 1000 \<le> 0" by linarith
  show ?thesis
    using assms(1) ttl
    by (auto simp: createSession_def deleteSessionsForAddress_def promise_all2_def redis_get_def
        redis_del_def redis_setEx_def Let_def split: option.splits prod.splits if_splits)
qed

lemma store_ok_createSession:
  assumes ok: "store_ok now s" and up: "redis_fault s = None"
    and ttl: "1000 \<le> SESSION_TTL_MS cfg" and hex: "is_hex_token token"
    and run: "createSession cfg now (token, csrf) ip0 a origin0 s = (s', r)"
  shows "store_ok now s'
     \<and> (\<forall>t e x. redis s' (session_key t) = Some (e, Json_text x) \<and> now < e \<and> address x = a
           \<longrightarrow> t = token)"
proof -
  let ?E = "now + 1000 * (SESSION_TTL_MS cfg div 1000)"
  let ?new = "\<lparr>ip = ip0, address = a, origin = origin0, startedAt = now, csrfToken = csrf\<rparr>"
  from ttl have live: "now < ?E" by linarith
  define base where "base =
         (case redis_get now (address_key a) s of
            Inr (Some v) \<Rightarrow>
              if raw_truthy (Some v)
              then (redis s)(session_key (text_of v) := None, address_key a := None)
              else redis s
          | _ \<Rightarrow> redis s)"
  from createSession_redis [OF up ttl, of now token csrf ip0 a origin0] run
  have rd: "redis s' = base(session_key token \<mapsto> (?E, Json_text ?new),
                             address_key a \<mapsto> (?E, Plain token))"
    unfolding base_def by auto
  have sub: "\<And>k e v. base k = Some (e, v) \<Longrightarrow> redis s k = Some (e, v)"
    unfolding base_def
    by (auto simp: redis_get_def up split: option.splits if_splits sum.splits)
  have gone: "\<And>t e x. base (session_key t) = Some (e, Json_text x) \<Longrightarrow> now < e
                 \<Longrightarrow> address x \<noteq> a"
  proof
    fix t e x
    assume b: "base (session_key t) = Some (e, Json_text x)" and l: "now < e"
      and ax: "address x = a"
    from sub [OF b] have rs: "redis s (session_key t) = Some (e, Json_text x)" .
    from store_ok_sessionD [OF ok rs l] ax
    have ht: "is_hex_token t" and ix: "redis s (address_key a) = Some (e, Plain t)"
      by simp_all
    from ht have "t \<noteq> []" by auto
    with ix l up have "base = (redis s)(session_key t := None, address_key a := None)"
      unfolding base_def by (simp add: redis_get_def)
    with b ht show False by simp
  qed
  have keep: "\<And>t e x. base (session_key t) = Some (e, Json_text x) \<Longrightarrow> now < e
                 \<Longrightarrow> is_hex_token t \<and> base (address_key (address x)) = Some (e, Plain t)"
  proof -
    fix t e x
    assume b: "base (session_key t) = Some (e, Json_text x)" and l: "now < e"
    from sub [OF b] have rs: "redis s (session_key t) = Some (e, Json_text x)" .
    from store_ok_sessionD [OF ok rs l]
    have ht: "is_hex_token t" and ix: "redis s (address_key (address x)) = Some (e, Plain t)"
      by simp_all
    from gone [OF b l] have na: "address x \<noteq> a" .
    have "base (address_key (address x)) = redis s (address_key (address x))"
    proof (cases "redis_get now (address_key a) s")
      case (Inl m)
      then show ?thesis unfolding base_def by simp
    next
      case (Inr raw)
      show ?thesis
      proof (cases raw)
        case None
        with Inr show ?thesis unfolding base_def by simp
      next
        case (Some v)
        with Inr obtain e' where iv: "redis s (address_key a) = Some (e', v)" "now < e'"
          by (auto simp: redis_get_def up split: option.splits if_splits)
        from store_ok_indexD [OF ok iv] obtain old where
          "is_hex_token old" "v = Plain old" by blast
        with Inr Some na show ?thesis
          unfolding base_def by simp
      qed
    qed
    with ht ix show "is_hex_token t \<and> base (address_key (address x)) = Some (e, Plain t)"
      by simp
  qed
  have ok': "store_ok now s'"
    unfolding store_ok_def
  proof (intro allI impI, elim conjE)
    fix k e v
    assume r: "redis s' k = Some (e, v)" and l: "now < e"
    show "(\<exists>t x. k = session_key t \<and> is_hex_token t \<and> v = Json_text x
               \<and> redis s' (address_key (address x)) = Some (e, Plain t))
        \<or> (\<exists>a t. k = address_key a \<and> is_hex_token t \<and> v = Plain t)"
    proof (cases "k = address_key a")
      case True
      with r rd hex show ?thesis by auto
    next
      case False
      note nk = this
      show ?thesis
      proof (cases "k = session_key token")
        case True
        with r rd hex nk have "e = ?E" "v = Json_text ?new" by auto
        with True hex rd show ?thesis by auto
      next
        case False
        with r rd nk have b: "base k = Some (e, v)" by simp
        from sub [OF b] l ok have
          "(\<exists>t x. k = session_key t \<and> is_hex_token t \<and> v = Json_text x
               \<and> redis s (address_key (address x)) = Some (e, Plain t))
           \<or> (\<exists>a t. k = address_key a \<and> is_hex_token t \<and> v = Plain t)"
          unfolding store_ok_def by blast
        then show ?thesis
        proof
          assume "\<exists>t x. k = session_key t \<and> is_hex_token t \<and> v = Json_text x
               \<and> redis s (address_key (address x)) = Some (e, Plain t)"
          then obtain t x where kx: "k = session_key t" "is_hex_token t" "v = Json_text x"
            by blast
          from b kx have bs: "base (session_key t) = Some (e, Json_text x)" by simp
          from keep [OF bs l] gone [OF bs l] hex kx rd show ?thesis
            by auto
        next
          assume "\<exists>a t. k = address_key a \<and> is_hex_token t \<and> v = Plain t"
          then show ?thesis by blast
        qed
      qed
    qed
  qed
  have only: "\<forall>t e x. redis s' (session_key t) = Some (e, Json_text x) \<and> now < e \<and> address x = a
           \<longrightarrow> t = token"
  proof (intro allI impI, elim conjE)
    fix t e x
    assume r: "redis s' (session_key t) = Some (e, Json_text x)" and l: "now < e"
      and ax: "address x = a"
    show "t = token"
    proof (rule ccontr)
      assume nt: "t \<noteq> token"
      have "session_key t \<noteq> address_key a"
        using r rd by (auto split: if_splits)
      with r rd nt have b: "base (session_key t) = Some (e, Json_text x)" by simp
      from gone [OF b l] ax show False by simp
    qed
  qed
  from ok' only show ?thesis by blast
qed

lemma store_ok_same: "store_ok now s \<Longrightarrow> redis s' = redis s \<Longrightarrow> store_ok now s'"
  by (simp add: store_ok_def)

lemma store_ok_empty: "redis s = Map.empty \<Longrightarrow> store_ok now s"
  by (simp add: store_ok_def)

lemma redis_get_SomeD:
  "redis_get now k s = Inr (Some v) \<Longrightarrow> \<exists>e. redis s k = Some (e, v) \<and> now < e"
  by (auto simp: redis_get_def split: option.splits if_splits)

lemma store_ok_consumed:
  assumes ok: "store_ok now s"
    and g: "redis_get now (session_key token) s = Inr (Some (Json_text x))"
    and rd: "redis s' = (redis s)(session_key token := None, address_key (address x) := None)"
  shows "store_ok now s'"
proof -
  from redis_get_SomeD [OF g] obtain e0 where
    r0: "redis s (session_key token) = Some (e0, Json_text x)" and l0: "now < e0"
    by blast
  from store_ok_sessionD [OF ok r0 l0]
  have ht: "is_hex_token token"
    and i0: "redis s (address_key (address x)) = Some (e0, Plain token)"
    by simp_all
  show ?thesis
    unfolding store_ok_def
  proof (intro allI impI, elim conjE)
    fix k e v
    assume r: "redis s' k = Some (e, v)" and l: "now < e"
    from r rd have nk: "k \<noteq> session_key token" "k \<noteq> address_key (address x)"
      and rs: "redis s k = Some (e, v)"
      by (auto split: if_splits)
    from ok rs l have
      "(\<exists>t y. k = session_key t \<and> is_hex_token t \<and> v = Json_text y
               \<and> redis s (address_key (address y)) = Some (e, Plain t))
        \<or> (\<exists>a t. k = address_key a \<and> is_hex_token t \<and> v = Plain t)"
      unfolding store_ok_def by blast
    then show "(\<exists>t y. k = session_key t \<and> is_hex_token t \<and> v = Json_text y
               \<and> redis s' (address_key (address y)) = Some (e, Plain t))
        \<or> (\<exists>a t. k = address_key a \<and> is_hex_token t \<and> v = Plain t)"
    proof
      assume "\<exists>t y. k = session_key t \<and> is_hex_token t \<and> v = Json_text y
               \<and> redis s (address_key (address y)) = Some (e, Plain t)"
      then obtain t y where k: "k = session_key t" and h: "is_hex_token t"
        and v: "v = Json_text y"
        and i: "redis s (address_key (address y)) = Some (e, Plain t)"
        by blast
      have "address y \<noteq> address x"
      proof
        assume "address y = address x"
        with i i0 have "t = token" by simp
        with k nk(1) show False by simp
      qed
      with i rd ht have "redis s' (address_key (address y)) = Some (e, Plain t)"
        by simp
      with k h v show ?thesis by blast
    next
      assume "\<exists>a t. k = address_key a \<and> is_hex_token t \<and> v = Plain t"
      then show ?thesis by blast
    qed
  qed
qed

lemma claim_route_store_ok:
  assumes "store_ok now s"
  shows "store_ok now (fst (claim_route cfg w now req s))"
proof -
  obtain s' r where run: "claim_route cfg w now req s = (s', r)"
    by (cases "claim_route cfg w now req s")
  have "store_ok now s'"
  proof (cases "\<exists>h amt. r = Claim_paid h amt")
    case True
    then obtain h amt where "r = Claim_paid h amt" by blast
    with run have "claim_route cfg w now req s = (s', Claim_paid h amt)" by simp
    from claim_route_paid [OF this] obtain token x where
      "redis_get now (session_key token) s = Inr (Some (Json_text x))"
      "redis s' = (redis s)(session_key token := None, address_key (address x) := None)"
      by blast
    with assms show ?thesis by (rule store_ok_consumed)
  next
    case False
    with claim_route_unpaid [OF run] have "redis s' = redis s" by blast
    with assms show ?thesis by (rule store_ok_same)
  qed
  with run show ?thesis by simp
qed

lemma start_game_route_store_ok:
  assumes ok: "store_ok now s" and ttl: "1000 \<le> SESSION_TTL_MS cfg"
    and hex: "is_hex_token (fst rnd)"
  shows "store_ok now (fst (start_game_route cfg now rnd req s))"
proof -
  obtain s1 r1 where g: "requireTrustedOrigin cfg ''GET'' req s = (s1, r1)"
    by (cases "requireTrustedOrigin cfg ''GET'' req s")
  from requireTrustedOrigin_frame [OF g]
  have f1: "redis s1 = redis s" "redis_fault s1 = redis_fault s" by simp_all
  from ok f1(1) have ok1: "store_ok now s1" by (rule store_ok_same)
  show ?thesis
  proof (cases r1)
    case (Respond a)
    with g ok1 show ?thesis by (simp add: start_game_route_def)
  next
    case (Next u)
    have "store_ok now (fst (start_game_handler cfg now rnd req s1))"
    proof (cases "malformed_address (query_address req)")
      case True
      with ok1 show ?thesis by (simp add: start_game_handler_malformed)
    next
      case False
      show ?thesis
      proof (cases "query_address req")
        case Missing
        with ok1 show ?thesis by (simp add: start_game_handler_def)
      next
        case (Repeated as)
        with ok1 show ?thesis by (simp add: start_game_handler_def)
      next
        case (Nested kvs)
        with ok1 show ?thesis by (simp add: start_game_handler_def)
      next
        case (Text a')
        with False obtain a where a: "query_address req = Text a" "startsWith a ''ccx7''"
            "length a = 98"
          by (auto simp: malformed_address_def)
      then have ne: "a \<noteq> []" by auto
      let ?o = "if truthy (origin_header req) then origin_header req else None"
      obtain s2 r2 where c: "createSession cfg now rnd (clientIP req) a ?o s1 = (s2, r2)"
        by (cases "createSession cfg now rnd (clientIP req) a ?o s1")
      have "store_ok now s2"
      proof (cases "redis_fault s1")
        case None
        from c have "createSession cfg now (fst rnd, snd rnd) (clientIP req) a ?o s1 = (s2, r2)"
          by simp
        from store_ok_createSession [OF ok1 None ttl hex this] show ?thesis by blast
      next
        case (Some m)
        with c have "s2 = s1"
          by (simp add: createSession_def deleteSessionsForAddress_def redis_get_def)
        with ok1 show ?thesis by simp
      qed
      with a ne c show ?thesis
        by (simp add: start_game_handler_def split: sum.splits prod.splits)
      qed
    qed
    with g Next show ?thesis by (simp add: start_game_route_def)
  qed
qed

lemma store_ok_serve_all:
  "store_ok t s \<Longrightarrow> orderly t cs \<Longrightarrow> 1000 \<le> SESSION_TTL_MS cfg
     \<Longrightarrow> store_ok (end_time t cs) (serve_all cfg cs s)"
proof (induction cs arbitrary: t s)
  case Nil
  then show ?case by simp
next
  case (Cons c cs)
  show ?case
  proof (cases c)
    case (Start_game now rnd req)
    with Cons.prems have t: "t \<le> now" and h: "is_hex_token (fst rnd)" and o: "orderly now cs"
      by simp_all
    from store_ok_later [OF Cons.prems(1) t]
    have "store_ok now (fst (start_game_route cfg now rnd req s))"
      using Cons.prems(3) h by (intro start_game_route_store_ok)
    from Cons.IH [OF this o Cons.prems(3)] Start_game show ?thesis by simp
  next
    case (Claim w now req)
    with Cons.prems have t: "t \<le> now" and o: "orderly now cs"
      by simp_all
    from store_ok_later [OF Cons.prems(1) t]
    have "store_ok now (fst (claim_route cfg w now req s))"
      by (rule claim_route_store_ok)
    from Cons.IH [OF this o Cons.prems(3)] Claim show ?thesis by simp
  qed
qed

lemma demo_start_run:
  "start_game_route demo_cfg 0 (demo_token, demo_csrf) demo_start demo_empty
     = (demo_started, Session_started demo_token demo_csrf)"
  by (simp add: start_game_route_def requireTrustedOrigin_def allowedOrigins_def
      getAllowedOrigins_def trim_def is_space_def start_game_handler_def startsWith_def
      createSession_def deleteSessionsForAddress_def promise_all2_def redis_get_def redis_setEx_def
      redis_del_def
      demo_defs session_key_def address_key_def Let_def)

lemma demo_started_ok: "store_ok 1000 demo_started"
proof -
  have e: "store_ok 0 demo_empty"
    by (rule store_ok_empty) (simp add: demo_defs)
  have o: "orderly 0 [Start_game 0 (demo_token, demo_csrf) demo_start]"
    by (simp add: demo_defs is_hex_token_def)
  have t: "1000 \<le> SESSION_TTL_MS demo_cfg"
    by (simp add: demo_defs)
  from store_ok_serve_all [OF e o t] have "store_ok 0 demo_started"
    by (simp add: demo_start_run)
  then show ?thesis by (rule store_ok_later) simp
qed

text \<open>
  Claim C4.  \<open>createSession\<close> always supersedes.  With Redis down it fails with the
  connection's error and changes nothing.  With Redis up, a session lifetime of at
  least one second and a hexadecimal token, it succeeds whatever the index holds: it
  first deletes the session named by the index and the index entry (when the index
  names one), then writes the new session record and the new index entry, both with
  the same lifetime and the same expiry; a token that the index named before no
  longer resolves to a session afterwards.  In a consistent store, which is what
  serving requests from an empty store always gives, the store stays consistent and
  the new token is afterwards the only one that resolves to a session of that
  address.
\<close>

theorem createSession_supersedes:
  "(\<forall>m. redis_fault s = Some m \<longrightarrow>
        createSession cfg now (token, csrf) ip0 a origin0 s = (s, Inl m))
   \<and> (redis_fault s = None \<and> 1000 \<le> SESSION_TTL_MS cfg \<and> is_hex_token token \<longrightarrow>
        (\<exists>s'. createSession cfg now (token, csrf) ip0 a origin0 s = (s', Inr (token, csrf))
           \<and> redis s' (session_key token) =
               Some (now + 1000 * (SESSION_TTL_MS cfg div 1000),
                     Json_text \<lparr>ip = ip0, address = a, origin = origin0, startedAt = now,
                                csrfToken = csrf\<rparr>)
           \<and> redis s' (address_key a) =
               Some (now + 1000 * (SESSION_TTL_MS cfg div 1000), Plain token)
           \<and> effects s' =
               effects s
               @ (case redis_get now (address_key a) s of
                    Inr (Some v) \<Rightarrow>
                      if raw_truthy (Some v)
                      then [Store_del (session_key (text_of v)), Store_del (address_key a)]
                      else []
                  | _ \<Rightarrow> [])
               @ [Store_set (session_key token) (SESSION_TTL_MS cfg div 1000)
                    (Json_text \<lparr>ip = ip0, address = a, origin = origin0, startedAt = now,
                                 csrfToken = csrf\<rparr>),
                  Store_set (address_key a) (SESSION_TTL_MS cfg div 1000) (Plain token)]
           \<and> (\<forall>old. is_hex_token old \<and> old \<noteq> token
                      \<and> redis_get now (address_key a) s = Inr (Some (Plain old)) \<longrightarrow>
                  (\<forall>now'. redis_get now' (session_key old) s' = Inr None))
           \<and> (store_ok now s \<longrightarrow>
                  store_ok now s'
                  \<and> (\<forall>t e x. redis s' (session_key t) = Some (e, Json_text x) \<and> now < e
                               \<and> address x = a \<longrightarrow> t = token))))"
proof (intro conjI impI)
  show "\<forall>m. redis_fault s = Some m \<longrightarrow>
        createSession cfg now (token, csrf) ip0 a origin0 s = (s, Inl m)"
    using createSession_runs [of s cfg now token csrf ip0 a origin0] by blast
next
  assume h: "redis_fault s = None \<and> 1000 \<le> SESSION_TTL_MS cfg \<and> is_hex_token token"
  let ?new = "\<lparr>ip = ip0, address = a, origin = origin0, startedAt = now, csrfToken = csrf\<rparr>"
  let ?ttl = "SESSION_TTL_MS cfg div 1000"
  from h createSession_runs [of s cfg now token csrf ip0 a origin0]
  obtain s' where run: "createSession cfg now (token, csrf) ip0 a origin0 s = (s', Inr (token, csrf))"
    and k1: "redis s' (session_key token) = Some (now + 1000 * ?ttl, Json_text ?new)"
    and k2: "redis s' (address_key a) = Some (now + 1000 * ?ttl, Plain token)"
    and tr: "effects s' =
               effects s
               @ (case redis_get now (address_key a) s of
                    Inr (Some v) \<Rightarrow>
                      if raw_truthy (Some v)
                      then [Store_del (session_key (text_of v)), Store_del (address_key a)]
                      else []
                  | _ \<Rightarrow> [])
               @ [Store_set (session_key token) ?ttl (Json_text ?new),
                  Store_set (address_key a) ?ttl (Plain token)]"
    and old: "\<forall>old. is_hex_token old \<and> old \<noteq> token
                      \<and> redis_get now (address_key a) s = Inr (Some (Plain old)) \<longrightarrow>
                  (\<forall>now'. redis_get now' (session_key old) s' = Inr None)"
    by blast
  have inv: "store_ok now s \<longrightarrow>
                  store_ok now s'
                  \<and> (\<forall>t e x. redis s' (session_key t) = Some (e, Json_text x) \<and> now < e
                               \<and> address x = a \<longrightarrow> t = token)"
  proof
    assume ok: "store_ok now s"
    from h have up: "redis_fault s = None" and ttl: "1000 \<le> SESSION_TTL_MS cfg"
      and hex: "is_hex_token token"
      by simp_all
    from store_ok_createSession [OF ok up ttl hex run]
    show "store_ok now s'
          \<and> (\<forall>t e x. redis s' (session_key t) = Some (e, Json_text x) \<and> now < e
                       \<and> address x = a \<longrightarrow> t = token)" .
  qed
  from run k1 k2 tr old inv
  show "\<exists>s'. createSession cfg now (token, csrf) ip0 a origin0 s = (s', Inr (token, csrf))
           \<and> redis s' (session_key token) = Some (now + 1000 * ?ttl, Json_text ?new)
           \<and> redis s' (address_key a) = Some (now + 1000 * ?ttl, Plain token)
           \<and> effects s' =
               effects s
               @ (case redis_get now (address_key a) s of
                    Inr (Some v) \<Rightarrow>
                      if raw_truthy (Some v)
                      then [Store_del (session_key (text_of v)), Store_del (address_key a)]
                      else []
                  | _ \<Rightarrow> [])
               @ [Store_set (session_key token) ?ttl (Json_text ?new),
                  Store_set (address_key a) ?ttl (Plain token)]
           \<and> (\<forall>old. is_hex_token old \<and> old \<noteq> token
                      \<and> redis_get now (address_key a) s = Inr (Some (Plain old)) \<longrightarrow>
                  (\<forall>now'. redis_get now' (session_key old) s' = Inr None))
           \<and> (store_ok now s \<longrightarrow>
                  store_ok now s'
                  \<and> (\<forall>t e x. redis s' (session_key t) = Some (e, Json_text x) \<and> now < e
                               \<and> address x = a \<longrightarrow> t = token))"
    by blast
qed

theorem createSession_supersedes_witness:
  "redis_fault demo_started = None \<and> 1000 \<le> SESSION_TTL_MS demo_cfg \<and> is_hex_token demo_token2
   \<and> is_hex_token demo_token \<and> demo_token \<noteq> demo_token2
   \<and> store_ok 1000 demo_started
   \<and> redis_get 1000 (address_key demo_address) demo_started = Inr (Some (Plain demo_token))
   \<and> redis_get 1000 (session_key demo_token) demo_started = Inr (Some (Json_text demo_session))
   \<and> (\<exists>s'. createSession demo_cfg 1000 (demo_token2, demo_csrf2) ''1.2.3.4'' demo_address
               (Some ''https://f.example'') demo_started = (s', Inr (demo_token2, demo_csrf2))
          \<and> redis_get 1000 (session_key demo_token) s' = Inr None
          \<and> store_ok 1000 s')"
proof -
  have h: "redis_fault demo_started = None \<and> 1000 \<le> SESSION_TTL_MS demo_cfg \<and> is_hex_token demo_token2"
    by (simp add: demo_defs is_hex_token_def)
  have o: "is_hex_token demo_token \<and> demo_token \<noteq> demo_token2
      \<and> redis_get 1000 (address_key demo_address) demo_started = Inr (Some (Plain demo_token))"
    by (simp add: demo_defs is_hex_token_def redis_get_def session_key_def address_key_def)
  have g: "redis_get 1000 (session_key demo_token) demo_started = Inr (Some (Json_text demo_session))"
    by (simp add: demo_defs redis_get_def session_key_def address_key_def)
  show ?thesis
    using h o g demo_started_ok
      createSession_supersedes [of demo_started demo_cfg 1000 demo_token2 demo_csrf2 "''1.2.3.4''"
        demo_address "Some ''https://f.example''"]
    by blast
qed

end
